theory Spec2Isabelle
  imports Complex_Main
begin

section \<open>Python values used by the organizer\<close>

text \<open>
  Exceptions of \<^verbatim>\<open>data_organizer.py\<close> and of the library calls it makes are values:
  a function that can raise returns \<open>error + 'a\<close>, with \<open>Inl\<close> for the exception.
  \<open>OSError en\<close> is the OSError that a failed \<^verbatim>\<open>stat\<close> raises with errno \<open>en\<close> (Python names
  it PermissionError when \<open>en\<close> is EACCES); the four named subclasses are the ones that
  \<^verbatim>\<open>mkdir\<close> and \<^verbatim>\<open>open\<close> raise.
\<close>

datatype errno = ENOENT | ENOTDIR | EBADF | ELOOP | EACCES | ENAMETOOLONG | EIO

datatype error =
    ValueError string
  | FileExistsError
  | FileNotFoundError
  | NotADirectoryError
  | IsADirectoryError
  | OSError errno

text \<open>
  A folder template is a Python dict from folder name to either a list (every leaf of the
  catalog is the empty list \<^verbatim>\<open>[]\<close>) or a nested dict. Dicts keep insertion order, so a
  dict is an association list; \<open>PyList\<close> and \<open>PyDict\<close> are the two shapes that
  \<^verbatim>\<open>isinstance(contents, dict)\<close> tells apart.
\<close>

datatype contents =
    PyList "string list"
  | PyDict "(string \<times> contents) list"

type_synonym template = "(string \<times> contents) list"

subsection \<open>String methods\<close>

text \<open>
  A string is the list of the bytes of its UTF-8 encoding. The characters that the
  program looks for (\<^verbatim>\<open>'/'\<close>, \<^verbatim>\<open>'.'\<close>, \<^verbatim>\<open>'_'\<close>) are ASCII, and in UTF-8 a byte below 128 is
  always that ASCII character, so \<^verbatim>\<open>str.replace\<close> for single characters, \<^verbatim>\<open>str.split\<close> with a
  one-character separator, \<^verbatim>\<open>sep.join\<close> and \<^verbatim>\<open>str.rfind\<close> (as an option: \<open>None\<close> is Python's -1)
  act on the bytes as Python acts on the characters.

  \<^verbatim>\<open>str.lower\<close> follows the case mapping of Unicode, which is a table of the Python
  runtime and not of this program: every function that lowercases takes it as the
  parameter \<open>str_lower\<close>. \<open>ascii_lower\<close> is that function on strings of ASCII characters;
  the examples, whose names are ASCII, are run with it.
\<close>

definition lower_char :: "char \<Rightarrow> char" where
  "lower_char c =
     (let n = (of_char c :: nat) in if 65 \<le> n \<and> n \<le> 90 then char_of (n + 32) else c)"

definition ascii_lower :: "string \<Rightarrow> string" where
  "ascii_lower s = map lower_char s"

definition replace_char :: "char \<Rightarrow> char \<Rightarrow> string \<Rightarrow> string" where
  "replace_char old new s = map (\<lambda>c. if c = old then new else c) s"

fun split :: "char \<Rightarrow> string \<Rightarrow> string list" where
  "split sep [] = [[]]"
| "split sep (c # cs) =
     (if c = sep then [] # split sep cs
      else (case split sep cs of
              [] \<Rightarrow> [[c]]
            | w # ws \<Rightarrow> (c # w) # ws))"

fun join :: "string \<Rightarrow> string list \<Rightarrow> string" where
  "join sep [] = []"
| "join sep [w] = w"
| "join sep (w # ws) = w @ sep @ join sep ws"

fun rfind :: "char \<Rightarrow> string \<Rightarrow> nat option" where
  "rfind c [] = None"
| "rfind c (x # xs) =
     (case rfind c xs of
        Some i \<Rightarrow> Some (Suc i)
      | None \<Rightarrow> (if x = c then Some 0 else None))"

section \<open>The template catalog\<close>

definition by_type :: template where
  "by_type =
    [(''Documents'', PyDict
        [(''PDFs'', PyList []), (''Word_Documents'', PyList []), (''Spreadsheets'', PyList []),
         (''Presentations'', PyList []), (''Text_Files'', PyList []), (''Archives'', PyList [])]),
     (''Media'', PyDict
        [(''Images'', PyDict
            [(''Photos'', PyList []), (''Screenshots'', PyList []), (''Graphics'', PyList []),
             (''Icons'', PyList [])]),
         (''Videos'', PyDict
            [(''Personal'', PyList []), (''Work'', PyList []), (''Educational'', PyList [])]),
         (''Audio'', PyDict
            [(''Music'', PyList []), (''Recordings'', PyList []), (''Podcasts'', PyList [])])]),
     (''Code_and_Development'', PyDict
        [(''Projects'', PyList []), (''Scripts'', PyList []), (''Documentation'', PyList []),
         (''Resources'', PyList [])]),
     (''Data_Files'', PyDict
        [(''Databases'', PyList []), (''CSV_Files'', PyList []), (''JSON_Files'', PyList []),
         (''XML_Files'', PyList []), (''Logs'', PyList [])]),
     (''Miscellaneous'', PyDict
        [(''Temporary'', PyList []), (''Unsorted'', PyList []), (''To_Review'', PyList [])])]"

definition by_project :: template where
  "by_project =
    [(''Active_Projects'', PyDict
        [(''Project_A'', PyDict
            [(''Documents'', PyList []), (''Media'', PyList []), (''Data'', PyList []),
             (''Resources'', PyList [])]),
         (''Project_B'', PyDict
            [(''Documents'', PyList []), (''Media'', PyList []), (''Data'', PyList []),
             (''Resources'', PyList [])])]),
     (''Completed_Projects'', PyDict
        [(''Archive_2024'', PyList []), (''Archive_2023'', PyList [])]),
     (''Templates_and_Resources'', PyDict
        [(''Document_Templates'', PyList []), (''Media_Assets'', PyList []),
         (''Reference_Materials'', PyList [])]),
     (''Inbox'', PyDict
        [(''New_Items'', PyList []), (''To_Categorize'', PyList [])])]"

definition by_date :: template where
  "by_date =
    [(''2024'', PyDict
        [(''Q1_Jan_Mar'', PyDict
            [(''January'', PyList []), (''February'', PyList []), (''March'', PyList [])]),
         (''Q2_Apr_Jun'', PyDict
            [(''April'', PyList []), (''May'', PyList []), (''June'', PyList [])]),
         (''Q3_Jul_Sep'', PyDict
            [(''July'', PyList []), (''August'', PyList []), (''September'', PyList [])]),
         (''Q4_Oct_Dec'', PyDict
            [(''October'', PyList []), (''November'', PyList []), (''December'', PyList [])])]),
     (''2023'', PyDict
        [(''Archive'', PyList [])])]"

definition hybrid_approach :: template where
  "hybrid_approach =
    [(''01_Inbox'', PyDict
        [(''New_Items'', PyList []), (''Processing'', PyList []), (''Quick_Access'', PyList [])]),
     (''02_Active_Work'', PyDict
        [(''Current_Projects'', PyDict
            [(''Project_Alpha'', PyDict
                [(''Documents'', PyList []), (''Media'', PyList []), (''Data'', PyList [])])]),
         (''Daily_Tasks'', PyList []),
         (''Meetings_and_Notes'', PyList [])]),
     (''03_Resources'', PyDict
        [(''Templates'', PyList []), (''Reference_Materials'', PyList []),
         (''Tools_and_Utilities'', PyList [])]),
     (''04_Archive'', PyDict
        [(''By_Year'', PyDict
            [(''2024'', PyList []), (''2023'', PyList [])]),
         (''Completed_Projects'', PyList [])]),
     (''05_Personal'', PyDict
        [(''Photos'', PyList []), (''Documents'', PyList []), (''Media'', PyList [])])]"

text \<open>\<^verbatim>\<open>self.base_structures\<close>: the dict from approach name to template.\<close>

definition base_structures :: "(string \<times> template) list" where
  "base_structures =
    [(''by_type'', by_type), (''by_project'', by_project), (''by_date'', by_date),
     (''hybrid_approach'', hybrid_approach)]"

text \<open>\<^verbatim>\<open>self.file_type_mappings\<close>, one definition per key.\<close>

definition documents :: "string list" where
  "documents = [''.pdf'', ''.doc'', ''.docx'', ''.txt'', ''.rtf'', ''.odt'']"

definition spreadsheets :: "string list" where
  "spreadsheets = [''.xls'', ''.xlsx'', ''.csv'', ''.ods'']"

definition presentations :: "string list" where
  "presentations = [''.ppt'', ''.pptx'', ''.odp'']"

definition images :: "string list" where
  "images = [''.jpg'', ''.jpeg'', ''.png'', ''.gif'', ''.bmp'', ''.tiff'', ''.svg'']"

definition videos :: "string list" where
  "videos = [''.mp4'', ''.avi'', ''.mov'', ''.wmv'', ''.flv'', ''.mkv'']"

definition audio :: "string list" where
  "audio = [''.mp3'', ''.wav'', ''.flac'', ''.aac'', ''.ogg'']"

definition archives :: "string list" where
  "archives = [''.zip'', ''.rar'', ''.7z'', ''.tar'', ''.gz'']"

definition code :: "string list" where
  "code = [''.py'', ''.js'', ''.html'', ''.css'', ''.java'', ''.cpp'', ''.c'']"

definition data :: "string list" where
  "data = [''.json'', ''.xml'', ''.sql'', ''.db'', ''.sqlite'']"

subsection \<open>suggest_structure\<close>

text \<open>
  \<^verbatim>\<open>if approach not in self.base_structures: raise ValueError(f"Unknown approach: {approach}")\<close>,
  otherwise the template stored under the name.
\<close>

definition suggest_structure :: "string \<Rightarrow> error + template" where
  "suggest_structure approach =
     (case map_of base_structures approach of
        None \<Rightarrow> Inl (ValueError (''Unknown approach: '' @ approach))
      | Some s \<Rightarrow> Inr s)"

text \<open>The four names of the catalog, as the docstring of \<^verbatim>\<open>suggest_structure\<close> lists them.\<close>

definition catalog_names :: "string list" where
  "catalog_names = [''by_type'', ''by_project'', ''by_date'', ''hybrid_approach'']"

section \<open>Paths\<close>

text \<open>
  \<^verbatim>\<open>pathlib.Path\<close> on a POSIX system: a root (\<^verbatim>\<open>''\<close>, \<^verbatim>\<open>'/'\<close> or \<^verbatim>\<open>'//'\<close>) and the list of
  components. Parsing drops empty and \<^verbatim>\<open>'.'\<close> components; \<^verbatim>\<open>'..'\<close> is kept as a component,
  as pathlib keeps it.
\<close>

datatype Path = Path (root: string) (parts: "string list")

definition splitroot :: "string \<Rightarrow> string \<times> string" where
  "splitroot part =
     (if part \<noteq> [] \<and> hd part = CHR ''/'' then
        (let stripped_part = dropWhile (\<lambda>c. c = CHR ''/'') part
         in if length part - length stripped_part = 2 then (''//'', stripped_part)
            else (''/'', stripped_part))
      else ([], part))"

definition parse_path :: "string \<Rightarrow> Path" where
  "parse_path s =
     (case splitroot s of
        (r, rel) \<Rightarrow> Path r (filter (\<lambda>x. x \<noteq> [] \<and> x \<noteq> ''.'') (split CHR ''/'' rel)))"

text \<open>\<^verbatim>\<open>current_path / folder_name\<close>: a rooted right operand replaces the left one.\<close>

definition joinpath :: "Path \<Rightarrow> string \<Rightarrow> Path" where
  "joinpath p s =
     (let q = parse_path s
      in if root q \<noteq> [] then q else Path (root p) (parts p @ parts q))"

definition str_of :: "Path \<Rightarrow> string" where
  "str_of p =
     (if root p = [] \<and> parts p = [] then ''.'' else root p @ join ''/'' (parts p))"

definition name :: "Path \<Rightarrow> string" where
  "name p = (case parts p of [] \<Rightarrow> [] | _ # _ \<Rightarrow> last (parts p))"

definition parent :: "Path \<Rightarrow> Path" where
  "parent p = Path (root p) (butlast (parts p))"

text \<open>
  \<^verbatim>\<open>Path.suffix\<close>, as pathlib defines it up to Python 3.13:
  \<^verbatim>\<open>i = name.rfind('.')\<close>, then \<^verbatim>\<open>name[i:]\<close> if \<^verbatim>\<open>0 < i < len(name) - 1\<close>, else \<^verbatim>\<open>''\<close>.
\<close>

definition suffix :: "Path \<Rightarrow> string" where
  "suffix p =
     (let n = name p
      in case rfind CHR ''.'' n of
           None \<Rightarrow> []
         | Some i \<Rightarrow> (if 0 < i \<and> Suc i < length n then drop i n else []))"

section \<open>The filesystem seen by create_folder_structure\<close>

text \<open>
  A store from paths to what is there: a directory, or a file with its text. A path
  without components (the root, or the current directory) is always a directory. Paths
  are compared as pathlib prints them: symbolic links and \<^verbatim>\<open>'..'\<close> are not resolved, and
  permissions and disk space are not part of the store.
\<close>

datatype node = Dir | File string

type_synonym filesystem = "Path \<rightharpoonup> node"

definition path_exists :: "filesystem \<Rightarrow> Path \<Rightarrow> bool" where
  "path_exists fs p = (parts p = [] \<or> fs p \<noteq> None)"

definition is_dir :: "filesystem \<Rightarrow> Path \<Rightarrow> bool" where
  "is_dir fs p = (parts p = [] \<or> fs p = Some Dir)"

text \<open>\<^verbatim>\<open>os.mkdir\<close>: one directory, whose parent must be a directory.\<close>

definition os_mkdir :: "filesystem \<Rightarrow> Path \<Rightarrow> error + filesystem" where
  "os_mkdir fs p =
     (if path_exists fs p then Inl FileExistsError
      else if \<not> path_exists fs (parent p) then Inl FileNotFoundError
      else if \<not> is_dir fs (parent p) then Inl NotADirectoryError
      else Inr (fs(p \<mapsto> Dir)))"

text \<open>
  \<^verbatim>\<open>Path.mkdir(parents=False, exist_ok=True)\<close>: an OSError other than FileNotFoundError is
  dropped when the path is a directory.
\<close>

definition mkdir_exist_ok :: "filesystem \<Rightarrow> Path \<Rightarrow> error + filesystem" where
  "mkdir_exist_ok fs p =
     (case os_mkdir fs p of
        Inr fs' \<Rightarrow> Inr fs'
      | Inl FileNotFoundError \<Rightarrow> Inl FileNotFoundError
      | Inl e \<Rightarrow> (if is_dir fs p then Inr fs else Inl e))"

text \<open>
  \<^verbatim>\<open>folder_path.mkdir(parents=True, exist_ok=True)\<close>: on FileNotFoundError the parent is made
  first (recursively), then the directory itself.
\<close>

function mkdir :: "filesystem \<Rightarrow> Path \<Rightarrow> error + filesystem" where
  "mkdir fs p =
     (case os_mkdir fs p of
        Inr fs' \<Rightarrow> Inr fs'
      | Inl FileNotFoundError \<Rightarrow>
          (if parent p = p then Inl FileNotFoundError
           else (case mkdir fs (parent p) of
                   Inl e \<Rightarrow> Inl e
                 | Inr fs1 \<Rightarrow> mkdir_exist_ok fs1 p))
      | Inl e \<Rightarrow> (if is_dir fs p then Inr fs else Inl e))"
  by pat_completeness auto
termination
proof (relation "measure (\<lambda>(fs, p). length (parts p))")
  show "wf (measure (\<lambda>(fs, p). length (parts p)))" by simp
next
  fix fs :: filesystem and p :: Path and e :: error
  assume "parent p \<noteq> p"
  then have "parts p \<noteq> []"
    by (cases p) (auto simp: parent_def)
  then show "((fs, parent p), (fs, p)) \<in> measure (\<lambda>(fs, p). length (parts p))"
    by (simp add: parent_def)
qed

text \<open>\<^verbatim>\<open>open(readme_path, 'w')\<close> followed by \<^verbatim>\<open>f.write(text)\<close>: the file is created or truncated.\<close>

definition open_w :: "filesystem \<Rightarrow> Path \<Rightarrow> string \<Rightarrow> error + filesystem" where
  "open_w fs p body =
     (if is_dir fs p then Inl IsADirectoryError
      else if \<not> path_exists fs (parent p) then Inl FileNotFoundError
      else if \<not> is_dir fs (parent p) then Inl NotADirectoryError
      else Inr (fs(p \<mapsto> File body)))"

section \<open>create_folder_structure\<close>

definition newline :: char where
  "newline = CHR 0x0A"

text \<open>The text written to a new README.md: a heading, an empty line, the description line.\<close>

definition readme_text :: "(string \<Rightarrow> string) \<Rightarrow> string \<Rightarrow> string" where
  "readme_text str_lower folder_name =
     ''# '' @ folder_name @ [newline, newline] @
     ''This folder is for organizing '' @
     replace_char CHR ''_'' CHR '' '' (str_lower folder_name) @ '' files.'' @ [newline]"

text \<open>The body of \<^verbatim>\<open>if not dry_run:\<close> for one folder.\<close>

definition make_folder ::
  "(string \<Rightarrow> string) \<Rightarrow> filesystem \<Rightarrow> Path \<Rightarrow> string \<Rightarrow> error + filesystem"
where
  "make_folder str_lower fs folder_path folder_name =
     (case mkdir fs folder_path of
        Inl e \<Rightarrow> Inl e
      | Inr fs1 \<Rightarrow>
          (let readme_path = joinpath folder_path ''README.md''
           in if \<not> path_exists fs1 readme_path
              then open_w fs1 readme_path (readme_text str_lower folder_name)
              else Inr fs1))"

text \<open>
  \<^verbatim>\<open>create_recursive\<close>, with the list \<^verbatim>\<open>created_folders\<close> it appends to and the filesystem as
  the state. An exception ends the call: the list is then never returned.
\<close>

fun create_recursive ::
  "(string \<Rightarrow> string) \<Rightarrow> bool \<Rightarrow> Path \<Rightarrow> template \<Rightarrow> string list \<times> filesystem \<Rightarrow> error + string list \<times> filesystem"
where
  "create_recursive str_lower dry_run current_path [] st = Inr st"
| "create_recursive str_lower dry_run current_path ((folder_name, contents) # rest) (created_folders, fs) =
     (let folder_path = joinpath current_path folder_name;
          created = created_folders @ [str_of folder_path]
      in case (if \<not> dry_run then make_folder str_lower fs folder_path folder_name else Inr fs) of
           Inl e \<Rightarrow> Inl e
         | Inr fs1 \<Rightarrow>
             (case (case contents of
                      PyDict d \<Rightarrow> create_recursive str_lower dry_run folder_path d (created, fs1)
                    | PyList _ \<Rightarrow> Inr (created, fs1)) of
                Inl e \<Rightarrow> Inl e
              | Inr st2 \<Rightarrow> create_recursive str_lower dry_run current_path rest st2))"

definition create_folder_structure ::
  "(string \<Rightarrow> string) \<Rightarrow> filesystem \<Rightarrow> string \<Rightarrow> template \<Rightarrow> bool \<Rightarrow> error + string list \<times> filesystem"
where
  "create_folder_structure str_lower fs base_path struct dry_run =
     create_recursive str_lower dry_run (parse_path base_path) struct ([], fs)"

text \<open>
  The specification's reading of the result: the folder nodes of the template in
  depth-first pre-order, each with its path and its name, and the number of keys of the
  template at every nesting level.
\<close>

fun preorder :: "Path \<Rightarrow> template \<Rightarrow> (Path \<times> string) list" where
  "preorder current_path [] = []"
| "preorder current_path ((folder_name, contents) # rest) =
     (joinpath current_path folder_name, folder_name)
       # (case contents of
            PyDict d \<Rightarrow> preorder (joinpath current_path folder_name) d
          | PyList _ \<Rightarrow> [])
       @ preorder current_path rest"


section \<open>analyze_existing_data\<close>

text \<open>
  pathlib's \<^verbatim>\<open>_ignore_error\<close> (Python up to 3.13): \<^verbatim>\<open>Path.exists()\<close> and \<^verbatim>\<open>Path.is_file()\<close> call
  \<^verbatim>\<open>stat()\<close>, answer False when it fails with ENOENT, ENOTDIR, EBADF or ELOOP, and raise
  the OSError again for every other errno.
\<close>

definition ignore_error :: "errno \<Rightarrow> bool" where
  "ignore_error en = (en = ENOENT \<or> en = ENOTDIR \<or> en = EBADF \<or> en = ELOOP)"

text \<open>
  What the analysis reads from the disk. \<open>root_stat\<close> is \<^verbatim>\<open>os.stat\<close> of a path: \<open>None\<close> when it
  succeeds, the errno when it fails. \<open>rglob\<close> is the iteration \<^verbatim>\<open>data_path.rglob('*')\<close>: the list
  of the entries it yields, or the exception that ends it (rglob passes over a
  PermissionError of \<^verbatim>\<open>scandir\<close> and raises any other OSError). An entry carries its path
  and the outcomes of the two \<^verbatim>\<open>stat()\<close> calls made on it: \<open>mode_stat\<close> for the one inside \<^verbatim>\<open>is_file()\<close> (the errno, or whether the mode is that of
  a regular file) and \<open>size_stat\<close> for \<^verbatim>\<open>file_path.stat().st_size\<close> (the errno, or the size in
  bytes). The two can differ: the tree may change between the calls.
\<close>

record entry =
  file_path :: Path
  mode_stat :: "errno + bool"
  size_stat :: "errno + nat"

record disk =
  root_stat :: "Path \<Rightarrow> errno option"
  rglob :: "Path \<Rightarrow> error + entry list"

text \<open>\<^verbatim>\<open>Path.exists()\<close> and \<^verbatim>\<open>Path.is_file()\<close>.\<close>

definition exists_at :: "disk \<Rightarrow> Path \<Rightarrow> error + bool" where
  "exists_at d p =
     (case root_stat d p of
        None \<Rightarrow> Inr True
      | Some en \<Rightarrow> (if ignore_error en then Inr False else Inl (OSError en)))"

definition is_file :: "entry \<Rightarrow> error + bool" where
  "is_file e =
     (case mode_stat e of
        Inr is_reg \<Rightarrow> Inr is_reg
      | Inl en \<Rightarrow> (if ignore_error en then Inr False else Inl (OSError en)))"

text \<open>
  Python's floats are doubles. \<open>float_of_nat n\<close> is the double nearest to the integer
  \<open>n\<close>, the one with the even significand at a tie: \<open>n\<close> itself when it has at most 53
  bits, otherwise \<open>n\<close> rounded to its 53 leading bits. \<^verbatim>\<open>st_size / (1024 * 1024)\<close> is the
  double nearest to the quotient; dividing by a power of two only changes the exponent,
  so it is \<open>float_of_nat st_size / (1024 * 1024)\<close>, here as a rational number.
\<close>

fun bit_length :: "nat \<Rightarrow> nat" where
  "bit_length n = (if n = 0 then 0 else Suc (bit_length (n div 2)))"

definition float_of_nat :: "nat \<Rightarrow> rat" where
  "float_of_nat n =
     (let k = bit_length n - 53; q = n div 2 ^ k; r = n mod 2 ^ k
      in if 2 * r < 2 ^ k then of_nat (q * 2 ^ k)
         else if 2 ^ k < 2 * r then of_nat ((q + 1) * 2 ^ k)
         else if even q then of_nat (q * 2 ^ k)
         else of_nat ((q + 1) * 2 ^ k))"

text \<open>
  \<^verbatim>\<open>round(x, 2)\<close> of a double \<open>x\<close>: the decimal with two places nearest to the value of \<open>x\<close>,
  the even one at a tie. Python keeps the double nearest to that decimal, which prints
  as the decimal; the model keeps the decimal.
\<close>

definition round_half_even :: "rat \<Rightarrow> int" where
  "round_half_even x =
     (let f = \<lfloor>x\<rfloor>; r = x - of_int f
      in if r < 1 / 2 then f
         else if 1 / 2 < r then f + 1
         else if even f then f else f + 1)"

definition py_round2 :: "rat \<Rightarrow> rat" where
  "py_round2 x = of_int (round_half_even (x * 100)) / 100"

text \<open>The element \<^verbatim>\<open>{'path': ..., 'size_mb': ...}\<close> of the large-files list.\<close>

record large_file =
  path :: string
  size_mb :: rat

record file_analysis =
  total_files :: nat
  file_types :: "(string \<times> nat) list"
  large_files :: "large_file list"
  recommendations :: "string list"

text \<open>The two dicts the function can return: \<^verbatim>\<open>{"error": ...}\<close> or the analysis.\<close>

datatype analysis = ErrorDict string | AnalysisDict file_analysis

fun keys :: "analysis \<Rightarrow> string list" where
  "keys (ErrorDict msg) = [''error'']"
| "keys (AnalysisDict fa) = [''total_files'', ''file_types'', ''large_files'', ''recommendations'']"

text \<open>\<^verbatim>\<open>d.get(k, default)\<close> and \<^verbatim>\<open>d[k] = v\<close> on a dict kept in insertion order.\<close>

fun dict_get :: "('k \<times> 'v) list \<Rightarrow> 'k \<Rightarrow> 'v \<Rightarrow> 'v" where
  "dict_get [] k dflt = dflt"
| "dict_get ((k', v) # d) k dflt = (if k' = k then v else dict_get d k dflt)"

fun dict_set :: "('k \<times> 'v) list \<Rightarrow> 'k \<Rightarrow> 'v \<Rightarrow> ('k \<times> 'v) list" where
  "dict_set [] k v = [(k, v)]"
| "dict_set ((k', v') # d) k v = (if k' = k then (k, v) # d else (k', v') # dict_set d k v)"

text \<open>
  The body of the loop over \<^verbatim>\<open>data_path.rglob('*')\<close>. \<^verbatim>\<open>is_file()\<close> is called outside the
  \<^verbatim>\<open>try\<close>: what it raises ends the analysis. The bare \<^verbatim>\<open>except\<close> covers only the size read.
\<close>

definition analyze_file ::
  "(string \<Rightarrow> string) \<Rightarrow> file_analysis \<Rightarrow> entry \<Rightarrow> error + file_analysis"
where
  "analyze_file str_lower fa e =
     (case is_file e of
        Inl err \<Rightarrow> Inl err
      | Inr False \<Rightarrow> Inr fa
      | Inr True \<Rightarrow>
          (let fa1 = fa\<lparr>total_files := total_files fa + 1\<rparr>;
               sfx = str_lower (suffix (file_path e));
               fa2 = fa1\<lparr>file_types :=
                       dict_set (file_types fa1) sfx (dict_get (file_types fa1) sfx 0 + 1)\<rparr>
           in case size_stat e of
                Inl en \<Rightarrow> Inr fa2
              | Inr b \<Rightarrow>
                  (let mb = float_of_nat b / (1024 * 1024)
                   in if mb > 100
                      then Inr (fa2\<lparr>large_files := large_files fa2 @
                             [\<lparr>path = str_of (file_path e), size_mb = py_round2 mb\<rparr>]\<rparr>)
                      else Inr fa2)))"

fun analyze_files ::
  "(string \<Rightarrow> string) \<Rightarrow> file_analysis \<Rightarrow> entry list \<Rightarrow> error + file_analysis"
where
  "analyze_files str_lower fa [] = Inr fa"
| "analyze_files str_lower fa (e # es) =
     (case analyze_file str_lower fa e of
        Inl err \<Rightarrow> Inl err
      | Inr fa' \<Rightarrow> analyze_files str_lower fa' es)"

text \<open>The part after the walk, \<^verbatim>\<open># Generate recommendations\<close>.\<close>

definition generate_recommendations :: "file_analysis \<Rightarrow> string list" where
  "generate_recommendations fa =
     (let doc_files = sum_list (map (\<lambda>ext. dict_get (file_types fa) ext 0) documents);
          media_files =
            sum_list (map (\<lambda>ext. dict_get (file_types fa) ext 0) (images @ videos @ audio));
          r1 = (if doc_files > media_files then
                  [''Consider using 'by_project' approach - you have many document files'']
                else if media_files > doc_files then
                  [''Consider using 'by_type' approach - you have many media files'']
                else
                  [''Consider using 'hybrid_approach' for balanced organization'']);
          r2 = (if length (large_files fa) > 0 then
                  r1 @ [''Consider creating a separate 'Large_Files' folder for files >100MB'']
                else r1);
          r3 = (if total_files fa > 1000 then
                  r2 @ [''Consider using date-based organization due to large number of files'']
                else r2)
      in r3)"

definition analyze_existing_data :: "(string \<Rightarrow> string) \<Rightarrow> disk \<Rightarrow> string \<Rightarrow> error + analysis" where
  "analyze_existing_data str_lower d data_path =
     (let p = parse_path data_path
      in case exists_at d p of
           Inl err \<Rightarrow> Inl err
         | Inr False \<Rightarrow> Inr (ErrorDict (''Path '' @ str_of p @ '' does not exist''))
         | Inr True \<Rightarrow>
             (case rglob d p of
                Inl err \<Rightarrow> Inl err
              | Inr entries \<Rightarrow>
                  (case analyze_files str_lower
                          \<lparr>total_files = 0, file_types = [], large_files = [],
                             recommendations = []\<rparr>
                          entries of
                     Inl err \<Rightarrow> Inl err
                   | Inr file_analysis \<Rightarrow>
                       Inr (AnalysisDict
                              (file_analysis\<lparr>recommendations :=
                                 generate_recommendations file_analysis\<rparr>)))))"

text \<open>
  The empty report that the loop starts from, the entries of the walk (those that
  \<^verbatim>\<open>rglob\<close> yields when it does not raise), and the entries that the loop counts: the ones
  for which \<^verbatim>\<open>is_file()\<close> answers True.
\<close>

definition walk :: "disk \<Rightarrow> Path \<Rightarrow> entry list" where
  "walk d p = (case rglob d p of Inl err \<Rightarrow> [] | Inr entries \<Rightarrow> entries)"

definition empty_analysis :: file_analysis where
  "empty_analysis = \<lparr>total_files = 0, file_types = [], large_files = [], recommendations = []\<rparr>"

definition regular :: "entry \<Rightarrow> bool" where
  "regular e = (is_file e = Inr True)"

text \<open>
  The extension as the specification words it: the lowercased substring of the name from
  the last \<^verbatim>\<open>'.'\<close> onward, or the empty string if the name contains no \<^verbatim>\<open>'.'\<close>.
\<close>

definition spec_extension :: "(string \<Rightarrow> string) \<Rightarrow> string \<Rightarrow> string" where
  "spec_extension str_lower n =
     (if CHR ''.'' \<in> set n
      then str_lower (CHR ''.'' # rev (takeWhile (\<lambda>c. c \<noteq> CHR ''.'') (rev n)))
      else [])"

text \<open>
  Directories to run the analysis on. In \<open>example_disk\<close> the first file is deleted
  between \<^verbatim>\<open>is_file()\<close> and the size read, one file has 150 MB and one exactly 100 MB.
  \<open>dotfile_disk\<close> holds a dot file, a file without extension and a file with an upper-case
  extension. In \<open>locked_disk\<close> the walk lists a file in a directory that may be read but
  not searched: every \<^verbatim>\<open>stat\<close> of a path below that directory fails with EACCES. On \<open>empty_disk\<close> nothing exists,
  and a name of more than 255 bytes is refused with ENAMETOOLONG. \<open>sparse_disk\<close> holds one
  file of \<open>2 ^ 53 + 131073\<close> bytes.
\<close>

definition example_disk :: disk where
  "example_disk =
     \<lparr>root_stat = (\<lambda>p. if p = Path ''/'' [''d''] then None else Some ENOENT),
      rglob = (\<lambda>p. Inr [\<lparr>file_path = Path ''/'' [''d'', ''Report.PDF''], mode_stat = Inr True,
                        size_stat = Inl ENOENT\<rparr>,
                     \<lparr>file_path = Path ''/'' [''d'', ''sub''], mode_stat = Inr False,
                        size_stat = Inr 4096\<rparr>,
                     \<lparr>file_path = Path ''/'' [''d'', ''sub'', ''b.pdf''], mode_stat = Inr True,
                        size_stat = Inr 157286400\<rparr>,
                     \<lparr>file_path = Path ''/'' [''d'', ''c.jpg''], mode_stat = Inr True,
                        size_stat = Inr 104857600\<rparr>])\<rparr>"

definition dotfile_disk :: disk where
  "dotfile_disk =
     \<lparr>root_stat = (\<lambda>p. if p = Path ''/'' [''home''] then None else Some ENOENT),
      rglob = (\<lambda>p. Inr [\<lparr>file_path = Path ''/'' [''home'', ''.bashrc''], mode_stat = Inr True,
                        size_stat = Inr 12\<rparr>,
                     \<lparr>file_path = Path ''/'' [''home'', ''Makefile''], mode_stat = Inr True,
                        size_stat = Inr 300\<rparr>,
                     \<lparr>file_path = Path ''/'' [''home'', ''Notes.TXT''], mode_stat = Inr True,
                        size_stat = Inr 40\<rparr>])\<rparr>"

definition locked_disk :: disk where
  "locked_disk =
     \<lparr>root_stat = (\<lambda>p. if p = Path ''/'' [''d''] then None
                       else if take 2 (parts p) = [''d'', ''locked''] \<and> 2 < length (parts p)
                       then Some EACCES
                       else Some ENOENT),
      rglob = (\<lambda>p. Inr [\<lparr>file_path = Path ''/'' [''d'', ''locked''], mode_stat = Inr False,
                        size_stat = Inr 4096\<rparr>,
                     \<lparr>file_path = Path ''/'' [''d'', ''locked'', ''report.pdf''],
                        mode_stat = Inl EACCES, size_stat = Inl EACCES\<rparr>,
                     \<lparr>file_path = Path ''/'' [''d'', ''notes.txt''], mode_stat = Inr True,
                        size_stat = Inr 40\<rparr>])\<rparr>"

definition empty_disk :: disk where
  "empty_disk =
     \<lparr>root_stat = (\<lambda>p. if \<exists>c \<in> set (parts p). 255 < length c then Some ENAMETOOLONG
                       else Some ENOENT),
      rglob = (\<lambda>p. Inr [])\<rparr>"

definition sparse_disk :: disk where
  "sparse_disk =
     \<lparr>root_stat = (\<lambda>p. if p = Path ''/'' [''d''] then None else Some ENOENT),
      rglob = (\<lambda>p. Inr [\<lparr>file_path = Path ''/'' [''d'', ''sparse.img''], mode_stat = Inr True,
                        size_stat = Inr 9007199254872065\<rparr>])\<rparr>"

section \<open>Relations between two states of the filesystem\<close>




declare mkdir.simps [simp del]

declare bit_length.simps [simp del]

section \<open>Selection by name\<close>

lemma catalog_keys: "map fst base_structures = catalog_names"
  by (simp add: base_structures_def catalog_names_def)

lemma suggest_unknown:
  assumes "approach \<notin> set catalog_names"
  shows "suggest_structure approach = Inl (ValueError (''Unknown approach: '' @ approach))"
proof -
  from assms have "approach \<notin> fst ` set base_structures"
    using catalog_keys by (metis list.set_map)
  then have "map_of base_structures approach = None"
    by (simp add: map_of_eq_None_iff)
  then show ?thesis by (simp add: suggest_structure_def)
qed

lemma suggest_known:
  assumes "approach \<in> set catalog_names"
  shows "\<exists>t. suggest_structure approach = Inr t \<and> t \<noteq> []"
proof -
  from assms consider "approach = ''by_type''" | "approach = ''by_project''"
    | "approach = ''by_date''" | "approach = ''hybrid_approach''"
    by (auto simp: catalog_names_def)
  then show ?thesis
  proof cases
    case 1 then show ?thesis
      by (simp add: suggest_structure_def base_structures_def by_type_def)
  next
    case 2 then show ?thesis
      by (simp add: suggest_structure_def base_structures_def by_project_def)
  next
    case 3 then show ?thesis
      by (simp add: suggest_structure_def base_structures_def by_date_def)
  next
    case 4 then show ?thesis
      by (simp add: suggest_structure_def base_structures_def hybrid_approach_def)
  qed
qed

text \<open>
  Claim C4. \<^verbatim>\<open>suggest_structure\<close> returns a non-empty template for each of the four
  catalog names \<^verbatim>\<open>by_type\<close>, \<^verbatim>\<open>by_project\<close>, \<^verbatim>\<open>by_date\<close> and \<^verbatim>\<open>hybrid_approach\<close>, and for
  every other string it raises ValueError (the unknown-approach error) instead of
  returning a value.
\<close>

theorem suggest_structure_catalog:
  "(approach \<in> {''by_type'', ''by_project'', ''by_date'', ''hybrid_approach''} \<longrightarrow>
      (\<exists>t. suggest_structure approach = Inr t \<and> t \<noteq> [])) \<and>
   (approach \<notin> {''by_type'', ''by_project'', ''by_date'', ''hybrid_approach''} \<longrightarrow>
      suggest_structure approach = Inl (ValueError (''Unknown approach: '' @ approach)))"
proof (intro conjI impI)
  assume "approach \<in> {''by_type'', ''by_project'', ''by_date'', ''hybrid_approach''}"
  then have "approach \<in> set catalog_names" by (simp add: catalog_names_def)
  then show "\<exists>t. suggest_structure approach = Inr t \<and> t \<noteq> []" by (rule suggest_known)
next
  assume "approach \<notin> {''by_type'', ''by_project'', ''by_date'', ''hybrid_approach''}"
  then have "approach \<notin> set catalog_names" by (simp add: catalog_names_def)
  then show "suggest_structure approach = Inl (ValueError (''Unknown approach: '' @ approach))"
    by (rule suggest_unknown)
qed

theorem suggest_structure_catalog_witness:
  "''by_date'' \<in> {''by_type'', ''by_project'', ''by_date'', ''hybrid_approach''} \<and>
   (\<exists>t. suggest_structure ''by_date'' = Inr t \<and> t \<noteq> []) \<and>
   ''by_size'' \<notin> {''by_type'', ''by_project'', ''by_date'', ''hybrid_approach''} \<and>
   suggest_structure ''by_size'' = Inl (ValueError ''Unknown approach: by_size'')"
  using suggest_structure_catalog [of "''by_date''"] suggest_structure_catalog [of "''by_size''"]
  by simp


section \<open>The sequence returned by create_folder_structure\<close>



lemma create_recursive_dry:
  "create_recursive str_lower True cur t (created, fs) = Inr (created @ map (str_of \<circ> fst) (preorder cur t), fs)"
  by (induction cur t arbitrary: created rule: preorder.induct) (auto simp: Let_def split: contents.splits)



section \<open>What create_folder_structure str_lower does to the filesystem\<close>



lemma readme_path: "joinpath p ''README.md'' = Path (root p) (parts p @ [''README.md''])"
  by (simp add: joinpath_def parse_path_def splitroot_def)






























section \<open>Claims about create_folder_structure\<close>



text \<open>
  Claim C3. For every base path and template, \<^verbatim>\<open>create_folder_structure\<close> with
  \<^verbatim>\<open>dry_run=True\<close> changes nothing in the filesystem (no directory is made, no file is
  written) and returns the same sequence of paths on every call: the sequence does not
  depend on the filesystem the call finds, and the call leaves that filesystem as it was.
\<close>

theorem dry_run_changes_nothing:
  "\<exists>folders. \<forall>str_lower fs.
     create_folder_structure str_lower fs base_path t True = Inr (folders, fs)"
  by (intro exI allI) (simp add: create_folder_structure_def create_recursive_dry)




section \<open>The walk of analyze_existing_data\<close>

lemma dict_get_set:
  "dict_get (dict_set d k v) k' dflt = (if k' = k then v else dict_get d k' dflt)"
  by (induction d) auto

lemma sum_dict_set:
  "sum_list (map snd (dict_set d k (Suc (dict_get d k 0)))) = Suc (sum_list (map snd d))"
  by (induction d) auto

lemma analyze_file_total:
  "analyze_file str_lower fa e = Inr fa' \<Longrightarrow>
   total_files fa' = total_files fa + (if regular e then 1 else 0)"
  by (auto simp: analyze_file_def regular_def Let_def split: sum.splits bool.splits if_splits)

lemma analyze_file_types:
  "analyze_file str_lower fa e = Inr fa' \<Longrightarrow>
   file_types fa' =
     (if regular e
      then dict_set (file_types fa) (str_lower (suffix (file_path e)))
             (Suc (dict_get (file_types fa) (str_lower (suffix (file_path e))) 0))
      else file_types fa)"
  by (auto simp: analyze_file_def regular_def Let_def split: sum.splits bool.splits if_splits)

lemma analyze_file_large:
  "analyze_file str_lower fa e = Inr fa' \<Longrightarrow>
   large_files fa' =
     large_files fa @
       (if regular e \<and> (\<exists>b. size_stat e = Inr b \<and> 100 < float_of_nat b / 1048576)
        then [\<lparr>path = str_of (file_path e),
                size_mb = py_round2 (float_of_nat (projr (size_stat e)) / 1048576)\<rparr>]
        else [])"
  by (auto simp: analyze_file_def regular_def Let_def split: sum.splits bool.splits if_splits)

lemma analyze_file_returns: "\<not> isl (is_file e) \<Longrightarrow> \<exists>fa'. analyze_file str_lower fa e = Inr fa'"
  by (auto simp: analyze_file_def Let_def split: sum.splits bool.splits)

lemma analyze_file_raises: "is_file e = Inl err \<Longrightarrow> analyze_file str_lower fa e = Inl err"
  by (simp add: analyze_file_def)

lemma analyze_files_total:
  "analyze_files str_lower fa es = Inr fa' \<Longrightarrow>
   total_files fa' = total_files fa + length (filter regular es)"
proof (induction es arbitrary: fa)
  case Nil
  then show ?case by simp
next
  case (Cons e es)
  then obtain fa1 where a: "analyze_file str_lower fa e = Inr fa1"
    and b: "analyze_files str_lower fa1 es = Inr fa'"
    by (auto split: sum.splits)
  from Cons.IH [OF b] analyze_file_total [OF a] show ?case by simp
qed

lemma analyze_files_sum:
  "analyze_files str_lower fa es = Inr fa' \<Longrightarrow>
   sum_list (map snd (file_types fa')) =
     sum_list (map snd (file_types fa)) + length (filter regular es)"
proof (induction es arbitrary: fa)
  case Nil
  then show ?case by simp
next
  case (Cons e es)
  then obtain fa1 where a: "analyze_file str_lower fa e = Inr fa1"
    and b: "analyze_files str_lower fa1 es = Inr fa'"
    by (auto split: sum.splits)
  from Cons.IH [OF b] analyze_file_types [OF a] show ?case by (simp add: sum_dict_set)
qed

lemma analyze_files_tally:
  "analyze_files str_lower fa es = Inr fa' \<Longrightarrow>
   dict_get (file_types fa') k 0 =
     dict_get (file_types fa) k 0 +
     length (filter (\<lambda>e. regular e \<and> str_lower (suffix (file_path e)) = k) es)"
proof (induction es arbitrary: fa)
  case Nil
  then show ?case by simp
next
  case (Cons e es)
  then obtain fa1 where a: "analyze_file str_lower fa e = Inr fa1"
    and b: "analyze_files str_lower fa1 es = Inr fa'"
    by (auto split: sum.splits)
  from Cons.IH [OF b] analyze_file_types [OF a] show ?case by (simp add: dict_get_set)
qed

lemma analyze_files_large:
  "analyze_files str_lower fa es = Inr fa' \<Longrightarrow>
   large_files fa' =
     large_files fa @
     map (\<lambda>e. \<lparr>path = str_of (file_path e),
                size_mb = py_round2 (float_of_nat (projr (size_stat e)) / 1048576)\<rparr>)
       (filter (\<lambda>e. regular e \<and> (\<exists>b. size_stat e = Inr b \<and> 100 < float_of_nat b / 1048576)) es)"
proof (induction es arbitrary: fa)
  case Nil
  then show ?case by simp
next
  case (Cons e es)
  then obtain fa1 where a: "analyze_file str_lower fa e = Inr fa1"
    and b: "analyze_files str_lower fa1 es = Inr fa'"
    by (auto split: sum.splits)
  from Cons.IH [OF b] analyze_file_large [OF a] show ?case by simp
qed

lemma analyze_files_returns:
  "\<forall>e \<in> set es. \<not> isl (is_file e) \<Longrightarrow> \<exists>fa'. analyze_files str_lower fa es = Inr fa'"
proof (induction es arbitrary: fa)
  case Nil
  show ?case by simp
next
  case (Cons e es)
  then have "\<not> isl (is_file e)" by simp
  from analyze_file_returns [OF this] obtain fa1 where "analyze_file str_lower fa e = Inr fa1"
    by blast
  with Cons show ?case by simp
qed

lemma analyze_file_size_failure:
  "analyze_file str_lower fa (if isl (size_stat e) then e\<lparr>size_stat := Inr 0\<rparr> else e) =
   analyze_file str_lower fa e"
proof -
  have "float_of_nat 0 = 0"
    by (simp add: float_of_nat_def Let_def)
  moreover have "is_file (e\<lparr>size_stat := Inr 0\<rparr>) = is_file e"
    by (simp add: is_file_def)
  ultimately show ?thesis
    by (cases "size_stat e") (auto simp: analyze_file_def Let_def split: sum.splits bool.splits)
qed

lemma analyze_files_size_failure:
  "analyze_files str_lower fa
     (map (\<lambda>e. if isl (size_stat e) then e\<lparr>size_stat := Inr 0\<rparr> else e) es) =
   analyze_files str_lower fa es"
proof (induction es arbitrary: fa)
  case Nil
  show ?case by simp
next
  case (Cons e es)
  have "analyze_files str_lower fa
          (map (\<lambda>e. if isl (size_stat e) then e\<lparr>size_stat := Inr 0\<rparr> else e) (e # es)) =
        (case analyze_file str_lower fa (if isl (size_stat e) then e\<lparr>size_stat := Inr 0\<rparr> else e) of
           Inl err \<Rightarrow> Inl err
         | Inr fa' \<Rightarrow> analyze_files str_lower fa'
             (map (\<lambda>e. if isl (size_stat e) then e\<lparr>size_stat := Inr 0\<rparr> else e) es))"
    by simp
  also have "\<dots> = (case analyze_file str_lower fa e of
           Inl err \<Rightarrow> Inl err
         | Inr fa' \<Rightarrow> analyze_files str_lower fa' es)"
    by (simp only: analyze_file_size_failure Cons.IH)
  finally show ?case by simp
qed

section \<open>Doubles and rounding\<close>

lemma bit_length_0: "bit_length 0 = 0"
  by (simp add: bit_length.simps [of 0])

lemma bit_length_le: "n < 2 ^ k \<Longrightarrow> bit_length n \<le> k"
proof (induction k arbitrary: n)
  case 0
  then show ?case by (simp add: bit_length_0)
next
  case (Suc k)
  then have "n div 2 < 2 ^ k" by simp
  from Suc.IH [OF this] show ?case by (simp add: bit_length.simps [of n])
qed

lemma bit_length_gt: "2 ^ k \<le> n \<Longrightarrow> k < bit_length n"
proof (induction k arbitrary: n)
  case 0
  then show ?case by (simp add: bit_length.simps [of n])
next
  case (Suc k)
  then have "2 ^ k \<le> n div 2" by simp
  have "(0::nat) < 2 ^ Suc k" by simp
  with Suc.prems have "n \<noteq> 0" by linarith
  with Suc.IH [OF \<open>2 ^ k \<le> n div 2\<close>] show ?case by (simp add: bit_length.simps [of n])
qed

lemma bit_length_pow: "0 < n \<Longrightarrow> 2 ^ (bit_length n - 1) \<le> n"
proof (induction n rule: bit_length.induct)
  case (1 n)
  show ?case
  proof (cases "n div 2 = 0")
    case True
    with "1.prems" have "bit_length n = 1"
      by (simp add: bit_length.simps [of n] bit_length_0)
    with "1.prems" show ?thesis by simp
  next
    case False
    then have pos: "0 < n div 2" by simp
    from "1.prems" have n0: "n \<noteq> 0" by simp
    from "1.IH" [OF n0 pos] have ih: "2 ^ (bit_length (n div 2) - 1) \<le> n div 2" .
    from pos have "0 < bit_length (n div 2)"
      by (simp add: bit_length.simps [of "n div 2"])
    then have "bit_length n - 1 = Suc (bit_length (n div 2) - 1)"
      using n0 by (simp add: bit_length.simps [of n])
    with ih show ?thesis by simp
  qed
qed

lemma float_of_nat_small: "n < 2 ^ 53 \<Longrightarrow> float_of_nat n = of_nat n"
proof -
  assume "n < 2 ^ 53"
  then have "bit_length n - 53 = 0" using bit_length_le [of n 53] by simp
  then show ?thesis by (simp add: float_of_nat_def Let_def)
qed

lemma float_of_nat_big:
  assumes "2 ^ 53 \<le> n"
  shows "2 ^ 52 \<le> float_of_nat n"
proof -
  define k where "k = bit_length n - 53"
  define q where "q = n div 2 ^ k"
  from assms have bl: "53 < bit_length n" by (rule bit_length_gt)
  from assms have "0 < n" by simp
  then have "2 ^ (bit_length n - 1) \<le> n" by (rule bit_length_pow)
  moreover from bl have "bit_length n - 1 = 52 + k" by (simp add: k_def)
  ultimately have "(2::nat) ^ 52 * 2 ^ k \<le> n" by (simp add: power_add)
  then have "(2::nat) ^ 52 * 2 ^ k div 2 ^ k \<le> n div 2 ^ k" by (rule div_le_mono)
  then have q: "(2::nat) ^ 52 \<le> q" by (simp add: q_def)
  have "(2::nat) ^ 52 \<le> q * 2 ^ k"
  proof -
    have "q * 1 \<le> q * 2 ^ k" by (intro mult_le_mono2) simp
    then have "q \<le> q * 2 ^ k" by simp
    with q show ?thesis by (rule order_trans)
  qed
  moreover have "q * 2 ^ k \<le> (q + 1) * 2 ^ k" by simp
  ultimately have a: "(2::nat) ^ 52 \<le> q * 2 ^ k" and b: "(2::nat) ^ 52 \<le> (q + 1) * 2 ^ k"
    by linarith+
  have "float_of_nat n = of_nat (q * 2 ^ k) \<or> float_of_nat n = of_nat ((q + 1) * 2 ^ k)"
    by (simp add: float_of_nat_def Let_def k_def q_def)
  moreover from a have "(2::rat) ^ 52 \<le> of_nat (q * 2 ^ k)"
    by (metis of_nat_le_iff of_nat_numeral of_nat_power)
  moreover from b have "(2::rat) ^ 52 \<le> of_nat ((q + 1) * 2 ^ k)"
    by (metis of_nat_le_iff of_nat_numeral of_nat_power)
  ultimately show ?thesis by auto
qed

lemma megabytes_threshold:
  "((100::rat) < float_of_nat b / 1048576) = (104857600 < b)"
proof (cases "b < 2 ^ 53")
  case True
  have "((100::rat) < of_nat b / 1048576) = ((100::rat) * 1048576 < of_nat b)"
    by (simp add: pos_less_divide_eq)
  also have "\<dots> = (of_nat 104857600 < (of_nat b :: rat))" by simp
  also have "\<dots> = (104857600 < b)" by (simp only: of_nat_less_iff)
  finally show ?thesis by (simp add: float_of_nat_small [OF True])
next
  case False
  then have big: "2 ^ 53 \<le> b" by simp
  from float_of_nat_big [OF big] have "(100::rat) * 1048576 < float_of_nat b" by simp
  then have "(100::rat) < float_of_nat b / 1048576" by (simp add: pos_less_divide_eq)
  moreover from big have "104857600 < b" by simp
  ultimately show ?thesis by simp
qed

lemma float_of_sparse: "float_of_nat 9007199254872065 = 9007199254872064"
proof -
  have "(9007199254872065::nat) < 2 ^ 54" by simp
  then have "bit_length 9007199254872065 \<le> 54" by (rule bit_length_le)
  moreover have "(2::nat) ^ 53 \<le> 9007199254872065" by simp
  then have "53 < bit_length 9007199254872065" by (rule bit_length_gt)
  ultimately have "bit_length 9007199254872065 = 54" by simp
  then show ?thesis by (simp add: float_of_nat_def Let_def)
qed

lemma round_half_even_eq:
  assumes "of_int f \<le> x" and "x < of_int f + 1"
  shows "round_half_even x =
     (if x - of_int f < 1 / 2 then f
      else if 1 / 2 < x - of_int f then f + 1
      else if even f then f else f + 1)"
proof -
  from assms have "\<lfloor>x\<rfloor> = f" by (intro floor_unique)
  then show ?thesis by (simp add: round_half_even_def Let_def)
qed

lemma sparse_rounding:
  "py_round2 (9007199254872064 / 1048576) = 858993459212 / 100 \<and>
   py_round2 (9007199254872065 / 1048576) = 858993459213 / 100"
proof -
  have "round_half_even (9007199254872064 / 1048576 * 100) = 858993459212"
    by (subst round_half_even_eq [where f = 858993459212]) simp_all
  moreover have "round_half_even (9007199254872065 / 1048576 * 100) = 858993459213"
    by (subst round_half_even_eq [where f = 858993459212]) simp_all
  ultimately show ?thesis by (simp add: py_round2_def)
qed

lemma round_half_even_close: "\<bar>of_int (round_half_even x) - x\<bar> \<le> 1 / 2"
proof -
  define r where "r = x - of_int \<lfloor>x\<rfloor>"
  have r: "0 \<le> r" "r < 1" unfolding r_def by linarith+
  consider "r < 1 / 2" | "1 / 2 < r" | "r = 1 / 2" by linarith
  then show ?thesis
  proof cases
    case 1
    then have "round_half_even x = \<lfloor>x\<rfloor>"
      by (simp add: round_half_even_def Let_def r_def)
    then have "of_int (round_half_even x) - x = - r" by (simp add: r_def)
    with 1 r show ?thesis by simp
  next
    case 2
    then have "round_half_even x = \<lfloor>x\<rfloor> + 1"
      by (simp add: round_half_even_def Let_def r_def)
    then have "of_int (round_half_even x) - x = 1 - r" by (simp add: r_def)
    with 2 r show ?thesis by simp
  next
    case 3
    then have "round_half_even x = \<lfloor>x\<rfloor> \<or> round_half_even x = \<lfloor>x\<rfloor> + 1"
      by (simp add: round_half_even_def Let_def r_def)
    then have "of_int (round_half_even x) - x = - r \<or> of_int (round_half_even x) - x = 1 - r"
      by (auto simp add: r_def)
    with 3 show ?thesis by auto
  qed
qed



lemma py_round2_two_places: "\<exists>k::int. py_round2 x = of_int k / 100"
  by (auto simp: py_round2_def)



lemma py_round2_close: "\<bar>py_round2 x - x\<bar> \<le> 1 / 200"
proof -
  have "\<bar>of_int (round_half_even (x * 100)) - x * 100\<bar> \<le> 1 / 2"
    by (rule round_half_even_close)
  then show ?thesis by (simp add: py_round2_def abs_if split: if_splits)
qed



section \<open>The suffix of a name\<close>

lemma rfind_None: "(rfind c n = None) = (c \<notin> set n)"
  by (induction n) (auto split: option.splits)



lemma rfind_Some:
  "rfind c n = Some i \<Longrightarrow> i < length n \<and> n ! i = c \<and> c \<notin> set (drop (Suc i) n)"
proof (induction n arbitrary: i)
  case Nil
  then show ?case by simp
next
  case (Cons x xs)
  show ?case
  proof (cases "rfind c xs")
    case None
    with Cons.prems have "x = c" "i = 0" by (auto split: if_splits)
    with None show ?thesis by (simp add: rfind_None)
  next
    case (Some j)
    with Cons.prems have "i = Suc j" by simp
    with Cons.IH [OF Some] show ?thesis by simp
  qed
qed



lemma rfind_drop:
  "rfind c n = Some i \<Longrightarrow> drop i n = c # rev (takeWhile (\<lambda>x. x \<noteq> c) (rev n))"
proof (induction n arbitrary: i)
  case Nil
  then show ?case by simp
next
  case (Cons x xs)
  show ?case
  proof (cases "rfind c xs")
    case None
    with Cons.prems have "x = c" "i = 0" by (auto split: if_splits)
    moreover from None have "c \<notin> set xs" by (simp add: rfind_None)
    then have "takeWhile (\<lambda>x. x \<noteq> c) (rev xs @ [c]) = rev xs"
      by (subst takeWhile_append2) auto
    ultimately show ?thesis by simp
  next
    case (Some j)
    with Cons.prems have i: "i = Suc j" by simp
    from Some have "c \<in> set (rev xs)"
      using rfind_None [of c xs] by simp
    then have "takeWhile (\<lambda>x. x \<noteq> c) (rev xs @ [x]) = takeWhile (\<lambda>x. x \<noteq> c) (rev xs)"
      by (intro takeWhile_append1) auto
    with Cons.IH [OF Some] i show ?thesis by simp
  qed
qed



lemma rfind_not_last:
  assumes "rfind c n = Some i" and "last n \<noteq> c"
  shows "Suc i < length n"
proof -
  from rfind_Some [OF assms(1)] have i: "i < length n" and c: "n ! i = c" by simp_all
  have "Suc i \<noteq> length n"
  proof
    assume "Suc i = length n"
    with i have "last n = n ! i"
      by (cases n rule: rev_cases) (auto simp: nth_append)
    with c assms(2) show False by simp
  qed
  with i show ?thesis by simp
qed



lemma rfind_not_first:
  assumes "rfind c n = Some i" and "hd n \<noteq> c"
  shows "0 < i"
proof (rule ccontr)
  assume "\<not> 0 < i"
  then have "i = 0" by simp
  with rfind_Some [OF assms(1)] have "n \<noteq> []" "n ! 0 = c" by auto
  then have "hd n = c" by (simp add: hd_conv_nth)
  with assms(2) show False by simp
qed



lemma suffix_no_dot: "CHR ''.'' \<notin> set (name p) \<Longrightarrow> suffix p = []"
  using rfind_None [of "CHR ''.''" "name p"] by (simp add: suffix_def Let_def)



lemma suffix_leading_dot:
  assumes "name p = CHR ''.'' # m" and "CHR ''.'' \<notin> set m"
  shows "suffix p = []"
proof -
  from assms(2) have "rfind CHR ''.'' m = None" by (simp add: rfind_None)
  with assms(1) show ?thesis by (simp add: suffix_def Let_def)
qed



lemma suffix_inner_dot:
  assumes "name p \<noteq> []" and "hd (name p) \<noteq> CHR ''.''" and "last (name p) \<noteq> CHR ''.''"
    and "CHR ''.'' \<in> set (name p)"
  shows "str_lower (suffix p) = spec_extension str_lower (name p)"
proof -
  from assms(4) obtain i where i: "rfind CHR ''.'' (name p) = Some i"
    using rfind_None [of "CHR ''.''" "name p"] by auto
  from rfind_not_first [OF i assms(2)] rfind_not_last [OF i assms(3)]
  have "suffix p = drop i (name p)" by (simp add: suffix_def Let_def i)
  with rfind_drop [OF i] assms(4) show ?thesis by (simp add: spec_extension_def)
qed



section \<open>Claims about analyze_existing_data\<close>

lemma sum_counts_distinct:
  "distinct ks \<Longrightarrow>
   sum_list (map (\<lambda>k. length (filter (\<lambda>e. P e \<and> f e = k) es)) ks) =
     length (filter (\<lambda>e. P e \<and> f e \<in> set ks) es)"
proof (induction ks)
  case Nil
  then show ?case by simp
next
  case (Cons k ks)
  then have "k \<notin> set ks" and "distinct ks" by simp_all
  have "length (filter (\<lambda>e. P e \<and> f e \<in> set (k # ks)) es) =
        length (filter (\<lambda>e. P e \<and> f e = k) es) + length (filter (\<lambda>e. P e \<and> f e \<in> set ks) es)"
    using \<open>k \<notin> set ks\<close> by (induction es) auto
  with Cons.IH [OF \<open>distinct ks\<close>] show ?case by simp
qed



lemma generate_recommendations_rules:
  "generate_recommendations fa =
     [if sum_list (map (\<lambda>ext. dict_get (file_types fa) ext 0) (images @ videos @ audio))
           < sum_list (map (\<lambda>ext. dict_get (file_types fa) ext 0) documents)
      then ''Consider using 'by_project' approach - you have many document files''
      else if sum_list (map (\<lambda>ext. dict_get (file_types fa) ext 0) documents)
           < sum_list (map (\<lambda>ext. dict_get (file_types fa) ext 0) (images @ videos @ audio))
      then ''Consider using 'by_type' approach - you have many media files''
      else ''Consider using 'hybrid_approach' for balanced organization''] @
     (if large_files fa \<noteq> []
      then [''Consider creating a separate 'Large_Files' folder for files >100MB''] else []) @
     (if 1000 < total_files fa
      then [''Consider using date-based organization due to large number of files''] else [])"
  unfolding generate_recommendations_def Let_def by (simp only: length_greater_0_conv) simp



lemma recommendations_of_report:
  assumes "recommendations r = generate_recommendations fa"
    and "file_types r = file_types fa" and "large_files r = large_files fa"
    and "total_files r = total_files fa"
  shows "(let docCount = sum_list (map (\<lambda>ext. dict_get (file_types r) ext 0)
           [''.pdf'', ''.doc'', ''.docx'', ''.txt'', ''.rtf'', ''.odt'']);
         mediaCount = sum_list (map (\<lambda>ext. dict_get (file_types r) ext 0)
           [''.jpg'', ''.jpeg'', ''.png'', ''.gif'', ''.bmp'', ''.tiff'', ''.svg'',
            ''.mp4'', ''.avi'', ''.mov'', ''.wmv'', ''.flv'', ''.mkv'',
            ''.mp3'', ''.wav'', ''.flac'', ''.aac'', ''.ogg''])
     in recommendations r =
          [if mediaCount < docCount
           then ''Consider using 'by_project' approach - you have many document files''
           else if docCount < mediaCount
           then ''Consider using 'by_type' approach - you have many media files''
           else ''Consider using 'hybrid_approach' for balanced organization''] @
          (if large_files r \<noteq> []
           then [''Consider creating a separate 'Large_Files' folder for files >100MB''] else []) @
          (if 1000 < total_files r
           then [''Consider using date-based organization due to large number of files'']
           else []))"
proof -
  have docs: "documents = [''.pdf'', ''.doc'', ''.docx'', ''.txt'', ''.rtf'', ''.odt'']"
    by (simp add: documents_def)
  have media: "images @ videos @ audio =
      [''.jpg'', ''.jpeg'', ''.png'', ''.gif'', ''.bmp'', ''.tiff'', ''.svg'',
       ''.mp4'', ''.avi'', ''.mov'', ''.wmv'', ''.flv'', ''.mkv'',
       ''.mp3'', ''.wav'', ''.flac'', ''.aac'', ''.ogg'']"
    by (simp add: images_def videos_def audio_def)
  show ?thesis
    by (simp only: Let_def assms generate_recommendations_rules docs media)
qed


lemma analyze_report:
  assumes "analyze_existing_data str_lower d data_path = Inr (AnalysisDict r)"
  shows "exists_at d (parse_path data_path) = Inr True \<and>
    (\<exists>fa. analyze_files str_lower empty_analysis (walk d (parse_path data_path)) = Inr fa \<and>
          r = fa\<lparr>recommendations := generate_recommendations fa\<rparr>)"
  using assms
  by (auto simp: analyze_existing_data_def empty_analysis_def walk_def Let_def
           split: sum.splits bool.splits)

lemma analyze_returns:
  assumes "exists_at d (parse_path data_path) = Inr True"
    and "\<not> isl (rglob d (parse_path data_path))"
    and "\<forall>e \<in> set (walk d (parse_path data_path)). \<not> isl (is_file e)"
  shows "\<exists>r. analyze_existing_data str_lower d data_path = Inr (AnalysisDict r)"
proof -
  from assms(2) obtain es where es: "rglob d (parse_path data_path) = Inr es"
    by (cases "rglob d (parse_path data_path)") simp_all
  then have "walk d (parse_path data_path) = es" by (simp add: walk_def)
  with analyze_files_returns [OF assms(3)] obtain fa where
    "analyze_files str_lower
       \<lparr>total_files = 0, file_types = [], large_files = [], recommendations = []\<rparr>
       es = Inr fa"
    by auto
  with assms(1) es show ?thesis by (simp add: analyze_existing_data_def Let_def)
qed

lemma report_fields:
  assumes "analyze_existing_data str_lower d data_path = Inr (AnalysisDict r)"
  shows "total_files r = length (filter regular (walk d (parse_path data_path)))"
    and "sum_list (map snd (file_types r)) = length (filter regular (walk d (parse_path data_path)))"
    and "dict_get (file_types r) k 0 =
           length (filter (\<lambda>e. regular e \<and> str_lower (suffix (file_path e)) = k)
                     (walk d (parse_path data_path)))"
    and "large_files r =
           map (\<lambda>e. \<lparr>path = str_of (file_path e),
                      size_mb = py_round2 (float_of_nat (projr (size_stat e)) / 1048576)\<rparr>)
             (filter (\<lambda>e. regular e \<and> (\<exists>b. size_stat e = Inr b \<and> 100 < float_of_nat b / 1048576))
                (walk d (parse_path data_path)))"
    and "\<exists>fa. recommendations r = generate_recommendations fa \<and> file_types r = file_types fa \<and>
           large_files r = large_files fa \<and> total_files r = total_files fa"
proof -
  from analyze_report [OF assms] obtain fa where
    w: "analyze_files str_lower empty_analysis (walk d (parse_path data_path)) = Inr fa" and
    r: "r = fa\<lparr>recommendations := generate_recommendations fa\<rparr>"
    by blast
  from analyze_files_total [OF w] r
  show "total_files r = length (filter regular (walk d (parse_path data_path)))"
    by (simp add: empty_analysis_def)
  from analyze_files_sum [OF w] r
  show "sum_list (map snd (file_types r)) = length (filter regular (walk d (parse_path data_path)))"
    by (simp add: empty_analysis_def)
  from analyze_files_tally [OF w, of k] r
  show "dict_get (file_types r) k 0 =
           length (filter (\<lambda>e. regular e \<and> str_lower (suffix (file_path e)) = k)
                     (walk d (parse_path data_path)))"
    by (simp add: empty_analysis_def)
  from analyze_files_large [OF w] r
  show "large_files r =
           map (\<lambda>e. \<lparr>path = str_of (file_path e),
                      size_mb = py_round2 (float_of_nat (projr (size_stat e)) / 1048576)\<rparr>)
             (filter (\<lambda>e. regular e \<and> (\<exists>b. size_stat e = Inr b \<and> 100 < float_of_nat b / 1048576))
                (walk d (parse_path data_path)))"
    by (simp add: empty_analysis_def)
  from r show "\<exists>fa. recommendations r = generate_recommendations fa \<and> file_types r = file_types fa \<and>
           large_files r = large_files fa \<and> total_files r = total_files fa"
    by (intro exI [of _ fa]) simp
qed

text \<open>
  Claim C1, amended. In every report that the analysis returns, the recommendations are
  made by three rules in order. First, with docCount the sum of the counts of the six
  document extensions and mediaCount the sum of the counts of the 18 extensions of
  images, videos and audio: the project-based template if docCount > mediaCount, the
  type-based one if mediaCount > docCount, the hybrid one otherwise. Second, the
  large-files recommendation if the large-files list is not empty. Third, the date-based
  recommendation if there are more than 1000 files. The two counts are the numbers of
  regular files of the walk whose lowercased suffix is one of those extensions. A report
  is returned whenever the root exists and neither \<^verbatim>\<open>rglob\<close> nor an \<^verbatim>\<open>is_file()\<close> call raises.
\<close>

theorem recommendations_rules:
  "(exists_at d (parse_path data_path) = Inr True \<and>
    \<not> isl (rglob d (parse_path data_path)) \<and>
    (\<forall>e \<in> set (walk d (parse_path data_path)). \<not> isl (is_file e)) \<longrightarrow>
      (\<exists>r. analyze_existing_data str_lower d data_path = Inr (AnalysisDict r))) \<and>
   (\<forall>r. analyze_existing_data str_lower d data_path = Inr (AnalysisDict r) \<longrightarrow>
    (let docCount = sum_list (map (\<lambda>ext. dict_get (file_types r) ext 0)
           [''.pdf'', ''.doc'', ''.docx'', ''.txt'', ''.rtf'', ''.odt'']);
         mediaCount = sum_list (map (\<lambda>ext. dict_get (file_types r) ext 0)
           [''.jpg'', ''.jpeg'', ''.png'', ''.gif'', ''.bmp'', ''.tiff'', ''.svg'',
            ''.mp4'', ''.avi'', ''.mov'', ''.wmv'', ''.flv'', ''.mkv'',
            ''.mp3'', ''.wav'', ''.flac'', ''.aac'', ''.ogg''])
     in recommendations r =
          [if mediaCount < docCount
           then ''Consider using 'by_project' approach - you have many document files''
           else if docCount < mediaCount
           then ''Consider using 'by_type' approach - you have many media files''
           else ''Consider using 'hybrid_approach' for balanced organization''] @
          (if large_files r \<noteq> []
           then [''Consider creating a separate 'Large_Files' folder for files >100MB''] else []) @
          (if 1000 < total_files r
           then [''Consider using date-based organization due to large number of files'']
           else [])) \<and>
    sum_list (map (\<lambda>ext. dict_get (file_types r) ext 0)
           [''.pdf'', ''.doc'', ''.docx'', ''.txt'', ''.rtf'', ''.odt'']) =
      length (filter (\<lambda>e. regular e \<and> str_lower (suffix (file_path e)) \<in> set
           [''.pdf'', ''.doc'', ''.docx'', ''.txt'', ''.rtf'', ''.odt''])
        (walk d (parse_path data_path))) \<and>
    sum_list (map (\<lambda>ext. dict_get (file_types r) ext 0)
           [''.jpg'', ''.jpeg'', ''.png'', ''.gif'', ''.bmp'', ''.tiff'', ''.svg'',
            ''.mp4'', ''.avi'', ''.mov'', ''.wmv'', ''.flv'', ''.mkv'',
            ''.mp3'', ''.wav'', ''.flac'', ''.aac'', ''.ogg'']) =
      length (filter (\<lambda>e. regular e \<and> str_lower (suffix (file_path e)) \<in> set
           [''.jpg'', ''.jpeg'', ''.png'', ''.gif'', ''.bmp'', ''.tiff'', ''.svg'',
            ''.mp4'', ''.avi'', ''.mov'', ''.wmv'', ''.flv'', ''.mkv'',
            ''.mp3'', ''.wav'', ''.flac'', ''.aac'', ''.ogg''])
        (walk d (parse_path data_path))))"
proof (intro conjI allI impI)
  assume "exists_at d (parse_path data_path) = Inr True \<and>
    \<not> isl (rglob d (parse_path data_path)) \<and>
    (\<forall>e \<in> set (walk d (parse_path data_path)). \<not> isl (is_file e))"
  then show "\<exists>r. analyze_existing_data str_lower d data_path = Inr (AnalysisDict r)"
    by (intro analyze_returns) simp_all
next
  fix r
  assume ret: "analyze_existing_data str_lower d data_path = Inr (AnalysisDict r)"
  let ?es = "walk d (parse_path data_path)"
  from report_fields(5) [OF ret] obtain fa where
    "recommendations r = generate_recommendations fa" "file_types r = file_types fa"
    "large_files r = large_files fa" "total_files r = total_files fa"
    by blast
  then show "let docCount = sum_list (map (\<lambda>ext. dict_get (file_types r) ext 0)
           [''.pdf'', ''.doc'', ''.docx'', ''.txt'', ''.rtf'', ''.odt'']);
         mediaCount = sum_list (map (\<lambda>ext. dict_get (file_types r) ext 0)
           [''.jpg'', ''.jpeg'', ''.png'', ''.gif'', ''.bmp'', ''.tiff'', ''.svg'',
            ''.mp4'', ''.avi'', ''.mov'', ''.wmv'', ''.flv'', ''.mkv'',
            ''.mp3'', ''.wav'', ''.flac'', ''.aac'', ''.ogg''])
     in recommendations r =
          [if mediaCount < docCount
           then ''Consider using 'by_project' approach - you have many document files''
           else if docCount < mediaCount
           then ''Consider using 'by_type' approach - you have many media files''
           else ''Consider using 'hybrid_approach' for balanced organization''] @
          (if large_files r \<noteq> []
           then [''Consider creating a separate 'Large_Files' folder for files >100MB''] else []) @
          (if 1000 < total_files r
           then [''Consider using date-based organization due to large number of files'']
           else [])"
    by (rule recommendations_of_report)
  have count: "sum_list (map (\<lambda>ext. dict_get (file_types r) ext 0) ks) =
      length (filter (\<lambda>e. regular e \<and> str_lower (suffix (file_path e)) \<in> set ks) ?es)"
    if "distinct ks" for ks
  proof -
    have "sum_list (map (\<lambda>ext. dict_get (file_types r) ext 0) ks) =
        sum_list (map (\<lambda>k. length (filter (\<lambda>e. regular e \<and> str_lower (suffix (file_path e)) = k) ?es)) ks)"
      by (simp add: report_fields(3) [OF ret])
    also have "\<dots> = length (filter (\<lambda>e. regular e \<and> str_lower (suffix (file_path e)) \<in> set ks) ?es)"
      using that by (rule sum_counts_distinct)
    finally show ?thesis .
  qed
  show "sum_list (map (\<lambda>ext. dict_get (file_types r) ext 0)
           [''.pdf'', ''.doc'', ''.docx'', ''.txt'', ''.rtf'', ''.odt'']) =
      length (filter (\<lambda>e. regular e \<and> str_lower (suffix (file_path e)) \<in> set
           [''.pdf'', ''.doc'', ''.docx'', ''.txt'', ''.rtf'', ''.odt''])
        (walk d (parse_path data_path)))"
    by (rule count) simp
  show "sum_list (map (\<lambda>ext. dict_get (file_types r) ext 0)
           [''.jpg'', ''.jpeg'', ''.png'', ''.gif'', ''.bmp'', ''.tiff'', ''.svg'',
            ''.mp4'', ''.avi'', ''.mov'', ''.wmv'', ''.flv'', ''.mkv'',
            ''.mp3'', ''.wav'', ''.flac'', ''.aac'', ''.ogg'']) =
      length (filter (\<lambda>e. regular e \<and> str_lower (suffix (file_path e)) \<in> set
           [''.jpg'', ''.jpeg'', ''.png'', ''.gif'', ''.bmp'', ''.tiff'', ''.svg'',
            ''.mp4'', ''.avi'', ''.mov'', ''.wmv'', ''.flv'', ''.mkv'',
            ''.mp3'', ''.wav'', ''.flac'', ''.aac'', ''.ogg''])
        (walk d (parse_path data_path)))"
    by (rule count) simp
qed

text \<open>
  Claim C5, amended. When \<^verbatim>\<open>stat\<close> of the root path fails with ENOENT, ENOTDIR, EBADF or
  ELOOP, the errors for which \<^verbatim>\<open>Path.exists()\<close> answers False (ENOENT and ENOTDIR are the
  ones of a path that is simply missing), \<^verbatim>\<open>analyze_existing_data\<close> raises nothing: it
  returns the dict \<^verbatim>\<open>{"error": "Path ... does not exist"}\<close>, whose only key is \<^verbatim>\<open>error\<close>; the
  file count, the extension counts, the large-files list and the recommendations are
  absent from it. When \<^verbatim>\<open>stat\<close> fails with another errno, \<^verbatim>\<open>Path.exists()\<close> raises the OSError
  and it leaves \<^verbatim>\<open>analyze_existing_data\<close>.
\<close>

theorem analyze_missing_path:
  assumes "root_stat d (parse_path data_path) = Some en"
  shows "(en \<in> {ENOENT, ENOTDIR, EBADF, ELOOP} \<longrightarrow>
            analyze_existing_data str_lower d data_path =
              Inr (ErrorDict (''Path '' @ str_of (parse_path data_path) @ '' does not exist'')) \<and>
            map_sum id keys (analyze_existing_data str_lower d data_path) = Inr [''error'']) \<and>
         (en \<notin> {ENOENT, ENOTDIR, EBADF, ELOOP} \<longrightarrow>
            analyze_existing_data str_lower d data_path = Inl (OSError en))"
  using assms
  by (auto simp: analyze_existing_data_def exists_at_def ignore_error_def Let_def)

text \<open>
  Claim C6, amended. In every report that the analysis returns, the large-files list
  holds, in the order of the walk, exactly the regular files whose size \<^verbatim>\<open>stat()\<close> returns and
  whose size in megabytes, the double \<^verbatim>\<open>st_size / 1048576\<close>, exceeds 100; that is so exactly
  when the file has more than 104,857,600 bytes. Each entry records the path and that
  double rounded to two decimal places (a multiple of 0.01 at most 0.005 away from it);
  for a size below \<open>2 ^ 53\<close> bytes the double is the exact quotient. Whenever the list is
  not empty, the recommendations include the one for a separate folder for large files.
\<close>

theorem large_files_rule:
  "(exists_at d (parse_path data_path) = Inr True \<and>
    \<not> isl (rglob d (parse_path data_path)) \<and>
    (\<forall>e \<in> set (walk d (parse_path data_path)). \<not> isl (is_file e)) \<longrightarrow>
      (\<exists>r. analyze_existing_data str_lower d data_path = Inr (AnalysisDict r))) \<and>
   (\<forall>r. analyze_existing_data str_lower d data_path = Inr (AnalysisDict r) \<longrightarrow>
      large_files r =
        map (\<lambda>e. \<lparr>path = str_of (file_path e),
                   size_mb = py_round2 (float_of_nat (projr (size_stat e)) / 1048576)\<rparr>)
          (filter (\<lambda>e. regular e \<and> (\<exists>b. size_stat e = Inr b \<and> 100 < float_of_nat b / 1048576))
             (walk d (parse_path data_path))) \<and>
      (large_files r \<noteq> [] \<longrightarrow>
         ''Consider creating a separate 'Large_Files' folder for files >100MB''
           \<in> set (recommendations r))) \<and>
   (\<forall>b. ((100::rat) < float_of_nat b / 1048576) = (104857600 < b)) \<and>
   (\<forall>b. b < 2 ^ 53 \<longrightarrow> float_of_nat b = of_nat b) \<and>
   (\<forall>x. (\<exists>k::int. py_round2 x = of_int k / 100) \<and> \<bar>py_round2 x - x\<bar> \<le> 1 / 200)"
proof (intro conjI allI impI)
  assume "exists_at d (parse_path data_path) = Inr True \<and>
    \<not> isl (rglob d (parse_path data_path)) \<and>
    (\<forall>e \<in> set (walk d (parse_path data_path)). \<not> isl (is_file e))"
  then show "\<exists>r. analyze_existing_data str_lower d data_path = Inr (AnalysisDict r)"
    by (intro analyze_returns) simp_all
next
  fix r
  assume ret: "analyze_existing_data str_lower d data_path = Inr (AnalysisDict r)"
  show "large_files r =
        map (\<lambda>e. \<lparr>path = str_of (file_path e),
                   size_mb = py_round2 (float_of_nat (projr (size_stat e)) / 1048576)\<rparr>)
          (filter (\<lambda>e. regular e \<and> (\<exists>b. size_stat e = Inr b \<and> 100 < float_of_nat b / 1048576))
             (walk d (parse_path data_path)))"
    by (rule report_fields(4) [OF ret])
  assume ne: "large_files r \<noteq> []"
  from report_fields(5) [OF ret] obtain fa where
    fa: "recommendations r = generate_recommendations fa" "large_files r = large_files fa"
    by blast
  with ne show "''Consider creating a separate 'Large_Files' folder for files >100MB''
           \<in> set (recommendations r)"
    by (simp add: generate_recommendations_rules)
next
  fix b
  show "((100::rat) < float_of_nat b / 1048576) = (104857600 < b)"
    by (rule megabytes_threshold)
next
  fix b :: nat
  assume "b < 2 ^ 53"
  then show "float_of_nat b = of_nat b" by (rule float_of_nat_small)
next
  fix x
  show "\<exists>k::int. py_round2 x = of_int k / 100" by (rule py_round2_two_places)
  show "\<bar>py_round2 x - x\<bar> \<le> 1 / 200" by (rule py_round2_close)
qed

text \<open>
  Claim C10. In every report that the analysis returns, the counts of the extension
  mapping add up to the total file count, which is the number of regular files of the
  walk: every counted file adds exactly one to one extension, whether its size can be
  read or not. A report is returned whenever the root exists and neither \<^verbatim>\<open>rglob\<close> nor an
  \<^verbatim>\<open>is_file()\<close> call raises.
\<close>

theorem tally_invariant:
  "(exists_at d (parse_path data_path) = Inr True \<and>
    \<not> isl (rglob d (parse_path data_path)) \<and>
    (\<forall>e \<in> set (walk d (parse_path data_path)). \<not> isl (is_file e)) \<longrightarrow>
      (\<exists>r. analyze_existing_data str_lower d data_path = Inr (AnalysisDict r))) \<and>
   (\<forall>r. analyze_existing_data str_lower d data_path = Inr (AnalysisDict r) \<longrightarrow>
      sum_list (map snd (file_types r)) = total_files r \<and>
      total_files r = length (filter regular (walk d (parse_path data_path))))"
proof (intro conjI allI impI)
  assume "exists_at d (parse_path data_path) = Inr True \<and>
    \<not> isl (rglob d (parse_path data_path)) \<and>
    (\<forall>e \<in> set (walk d (parse_path data_path)). \<not> isl (is_file e))"
  then show "\<exists>r. analyze_existing_data str_lower d data_path = Inr (AnalysisDict r)"
    by (intro analyze_returns) simp_all
next
  fix r
  assume ret: "analyze_existing_data str_lower d data_path = Inr (AnalysisDict r)"
  from report_fields(1,2) [OF ret]
  show "sum_list (map snd (file_types r)) = total_files r" by simp
  from report_fields(1) [OF ret]
  show "total_files r = length (filter regular (walk d (parse_path data_path)))" .
qed

text \<open>
  Claim C9, amended. A failure of the size read of a file, \<^verbatim>\<open>file_path.stat()\<close> raising after
  \<^verbatim>\<open>is_file()\<close> has answered (the file was deleted or made inaccessible in between), stops
  nothing and leaves no trace: the analysis does exactly what it does when every such
  file has a readable size of 0 bytes, so the failure is neither raised nor recorded.
  When the root exists and neither \<^verbatim>\<open>rglob\<close> nor an \<^verbatim>\<open>is_file()\<close> call raises, the result is a
  report that counts every regular file of the walk, the ones with an unreadable size and the ones after
  them included.
\<close>

theorem unreadable_size_swallowed:
  "analyze_existing_data str_lower d data_path =
     analyze_existing_data str_lower
       (d\<lparr>rglob := \<lambda>q. map_sum id
            (map (\<lambda>e. if isl (size_stat e) then e\<lparr>size_stat := Inr 0\<rparr> else e)) (rglob d q)\<rparr>)
       data_path \<and>
   (exists_at d (parse_path data_path) = Inr True \<and>
    \<not> isl (rglob d (parse_path data_path)) \<and>
    (\<forall>e \<in> set (walk d (parse_path data_path)). \<not> isl (is_file e)) \<longrightarrow>
      (\<exists>r. analyze_existing_data str_lower d data_path = Inr (AnalysisDict r) \<and>
           total_files r = length (filter regular (walk d (parse_path data_path)))))"
proof (intro conjI impI)
  have "exists_at (d\<lparr>rglob := \<lambda>q. map_sum id
            (map (\<lambda>e. if isl (size_stat e) then e\<lparr>size_stat := Inr 0\<rparr> else e)) (rglob d q)\<rparr>)
           (parse_path data_path) = exists_at d (parse_path data_path)"
    by (simp add: exists_at_def)
  then show "analyze_existing_data str_lower d data_path =
     analyze_existing_data str_lower
       (d\<lparr>rglob := \<lambda>q. map_sum id
            (map (\<lambda>e. if isl (size_stat e) then e\<lparr>size_stat := Inr 0\<rparr> else e)) (rglob d q)\<rparr>)
       data_path"
    by (cases "exists_at d (parse_path data_path)"; cases "rglob d (parse_path data_path)")
       (auto simp: analyze_existing_data_def Let_def analyze_files_size_failure
             split: bool.splits)
next
  assume h: "exists_at d (parse_path data_path) = Inr True \<and>
    \<not> isl (rglob d (parse_path data_path)) \<and>
    (\<forall>e \<in> set (walk d (parse_path data_path)). \<not> isl (is_file e))"
  then obtain r where ret: "analyze_existing_data str_lower d data_path = Inr (AnalysisDict r)"
    using analyze_returns [where d = d and data_path = data_path and str_lower = str_lower]
    by blast
  from report_fields(1) [OF ret] ret
  show "\<exists>r. analyze_existing_data str_lower d data_path = Inr (AnalysisDict r) \<and>
           total_files r = length (filter regular (walk d (parse_path data_path)))"
    by blast
qed

text \<open>
  Claim C8, amended. In every report that the analysis returns, the count stored under a
  key is the number of regular files of the walk whose lowercased \<^verbatim>\<open>Path.suffix\<close> is that
  key. The key is the empty string when the name has no \<^verbatim>\<open>'.'\<close>, and also when the only
  \<^verbatim>\<open>'.'\<close> of the name is its first character (\<^verbatim>\<open>.bashrc\<close>); for a name that neither starts
  nor ends with \<^verbatim>\<open>'.'\<close> the key is the lowercased substring from the last \<^verbatim>\<open>'.'\<close> onward.
  (\<^verbatim>\<open>str.lower\<close> maps the empty string to itself.)
\<close>

theorem extension_tally:
  assumes "str_lower [] = []"
  shows "(exists_at d (parse_path data_path) = Inr True \<and>
    \<not> isl (rglob d (parse_path data_path)) \<and>
    (\<forall>e \<in> set (walk d (parse_path data_path)). \<not> isl (is_file e)) \<longrightarrow>
      (\<exists>r. analyze_existing_data str_lower d data_path = Inr (AnalysisDict r))) \<and>
   (\<forall>r. analyze_existing_data str_lower d data_path = Inr (AnalysisDict r) \<longrightarrow>
      (\<forall>k. dict_get (file_types r) k 0 =
          length (filter (\<lambda>e. regular e \<and> str_lower (suffix (file_path e)) = k)
                    (walk d (parse_path data_path))))) \<and>
   (\<forall>p. (CHR ''.'' \<notin> set (name p) \<longrightarrow> str_lower (suffix p) = []) \<and>
        (\<forall>m. name p = CHR ''.'' # m \<and> CHR ''.'' \<notin> set m \<longrightarrow> str_lower (suffix p) = []) \<and>
        (name p \<noteq> [] \<and> hd (name p) \<noteq> CHR ''.'' \<and> last (name p) \<noteq> CHR ''.'' \<and>
         CHR ''.'' \<in> set (name p) \<longrightarrow>
           str_lower (suffix p) = spec_extension str_lower (name p)))"
proof (intro conjI allI impI)
  assume "exists_at d (parse_path data_path) = Inr True \<and>
    \<not> isl (rglob d (parse_path data_path)) \<and>
    (\<forall>e \<in> set (walk d (parse_path data_path)). \<not> isl (is_file e))"
  then show "\<exists>r. analyze_existing_data str_lower d data_path = Inr (AnalysisDict r)"
    by (intro analyze_returns) simp_all
next
  fix r k
  assume "analyze_existing_data str_lower d data_path = Inr (AnalysisDict r)"
  then show "dict_get (file_types r) k 0 =
          length (filter (\<lambda>e. regular e \<and> str_lower (suffix (file_path e)) = k)
                    (walk d (parse_path data_path)))"
    by (rule report_fields(3))
next
  fix p
  assume "CHR ''.'' \<notin> set (name p)"
  then show "str_lower (suffix p) = []" by (simp add: suffix_no_dot assms)
next
  fix p m
  assume "name p = CHR ''.'' # m \<and> CHR ''.'' \<notin> set m"
  then show "str_lower (suffix p) = []" by (simp add: suffix_leading_dot assms)
next
  fix p
  assume "name p \<noteq> [] \<and> hd (name p) \<noteq> CHR ''.'' \<and> last (name p) \<noteq> CHR ''.'' \<and>
         CHR ''.'' \<in> set (name p)"
  then show "str_lower (suffix p) = spec_extension str_lower (name p)"
    by (simp add: suffix_inner_dot)
qed

section \<open>The analysis of the example directories\<close>

lemmas run_simps =
  analyze_existing_data_def analyze_file_def exists_at_def is_file_def ignore_error_def
  generate_recommendations_def parse_path_def splitroot_def suffix_def name_def
  ascii_lower_def lower_char_def char_of_def bit_0 str_of_def float_of_nat_small
  py_round2_def round_half_even_def Let_def documents_def images_def videos_def audio_def

lemma example_disk_exists: "exists_at example_disk (parse_path ''/d'') = Inr True"
  by (simp add: example_disk_def exists_at_def parse_path_def splitroot_def)

lemma example_disk_walk:
  "\<not> isl (rglob example_disk (parse_path ''/d'')) \<and>
   list_all (\<lambda>e. \<not> isl (is_file e)) (walk example_disk (parse_path ''/d''))"
  by (simp add: example_disk_def is_file_def walk_def)

lemma example_disk_analysis:
  "analyze_existing_data ascii_lower example_disk ''/d'' =
   Inr (AnalysisDict \<lparr>total_files = 3, file_types = [(''.pdf'', 2), (''.jpg'', 1)],
     large_files = [\<lparr>path = ''/d/sub/b.pdf'', size_mb = 150\<rparr>],
     recommendations = [''Consider using 'by_project' approach - you have many document files'',
        ''Consider creating a separate 'Large_Files' folder for files >100MB'']\<rparr>)"
  by (simp add: example_disk_def run_simps)

lemma dotfile_disk_exists: "exists_at dotfile_disk (parse_path ''/home'') = Inr True"
  by (simp add: dotfile_disk_def exists_at_def parse_path_def splitroot_def)

lemma dotfile_disk_walk:
  "\<not> isl (rglob dotfile_disk (parse_path ''/home'')) \<and>
   list_all (\<lambda>e. \<not> isl (is_file e)) (walk dotfile_disk (parse_path ''/home''))"
  by (simp add: dotfile_disk_def is_file_def walk_def)

lemma dotfile_disk_analysis:
  "analyze_existing_data ascii_lower dotfile_disk ''/home'' =
   Inr (AnalysisDict \<lparr>total_files = 3, file_types = [([], 2), (''.txt'', 1)], large_files = [],
     recommendations = [''Consider using 'by_project' approach - you have many document files'']\<rparr>)"
  by (simp add: dotfile_disk_def run_simps)

lemma locked_disk_analysis:
  "analyze_existing_data ascii_lower locked_disk ''/d'' = Inl (OSError EACCES)"
  by (simp add: locked_disk_def run_simps)

lemma sparse_disk_analysis:
  "analyze_existing_data ascii_lower sparse_disk ''/d'' =
   Inr (AnalysisDict \<lparr>total_files = 1, file_types = [(''.img'', 1)],
     large_files = [\<lparr>path = ''/d/sparse.img'', size_mb = 858993459212 / 100\<rparr>],
     recommendations = [''Consider using 'hybrid_approach' for balanced organization'',
        ''Consider creating a separate 'Large_Files' folder for files >100MB'']\<rparr>)"
proof -
  have "round_half_even (68719476737 / 8 * 100) = 858993459212"
    by (subst round_half_even_eq [where f = 858993459212]) simp_all
  then have r: "py_round2 (68719476737 / 8) = 858993459212 / 100"
    by (simp add: py_round2_def)
  show ?thesis
    by (simp add: sparse_disk_def analyze_existing_data_def analyze_file_def exists_at_def
          is_file_def generate_recommendations_def parse_path_def splitroot_def suffix_def
          name_def ascii_lower_def lower_char_def str_of_def float_of_sparse r Let_def
          documents_def images_def videos_def audio_def)
qed

lemma split_replicate: "c \<noteq> sep \<Longrightarrow> split sep (replicate n c) = [replicate n c]"
  by (induction n) simp_all

lemma long_name: "replicate 300 (CHR ''x'') \<noteq> [] \<and> replicate 300 (CHR ''x'') \<noteq> ''.''"
proof -
  have "length (replicate 300 (CHR ''x'')) \<noteq> length ''.''" by simp
  then have "replicate 300 (CHR ''x'') \<noteq> ''.''" by metis
  then show ?thesis by simp
qed

lemma parse_long_name:
  "parse_path (''/tmp/'' @ replicate 300 (CHR ''x'')) = Path ''/'' [''tmp'', replicate 300 (CHR ''x'')]"
  using long_name by (simp add: parse_path_def splitroot_def split_replicate)

text \<open>
  Claim C1 as stated speaks of 14 extensions of images, videos and audio; the lists of
  \<^verbatim>\<open>file_type_mappings\<close> hold 7 + 6 + 5 = 18 different ones.
\<close>

theorem media_extensions_counterexample:
  "length (images @ videos @ audio) = 18 \<and> card (set (images @ videos @ audio)) = 18 \<and>
   length (images @ videos @ audio) \<noteq> 14"
proof -
  have d: "distinct (images @ videos @ audio)"
    by (simp add: images_def videos_def audio_def)
  have l: "length (images @ videos @ audio) = 18"
    by (simp add: images_def videos_def audio_def)
  from distinct_card [OF d] l show ?thesis by simp
qed

theorem recommendations_rules_witness:
  "exists_at example_disk (parse_path ''/d'') = Inr True \<and>
   \<not> isl (rglob example_disk (parse_path ''/d'')) \<and>
   list_all (\<lambda>e. \<not> isl (is_file e)) (walk example_disk (parse_path ''/d'')) \<and>
   (\<exists>r. analyze_existing_data ascii_lower example_disk ''/d'' = Inr (AnalysisDict r) \<and>
        recommendations r =
          [''Consider using 'by_project' approach - you have many document files'',
           ''Consider creating a separate 'Large_Files' folder for files >100MB''])"
  using recommendations_rules [where d = example_disk and data_path = "''/d''"
          and str_lower = ascii_lower]
    example_disk_exists example_disk_walk example_disk_analysis
  by simp

lemma analyze_stat_raises:
  assumes "root_stat d (parse_path data_path) = Some en" and "\<not> ignore_error en"
  shows "analyze_existing_data str_lower d data_path = Inl (OSError en)"
  using assms by (simp add: analyze_existing_data_def exists_at_def Let_def)

text \<open>
  Claim C5 as stated fails for a root path that does not exist and whose \<^verbatim>\<open>stat\<close> fails with
  an errno that \<^verbatim>\<open>Path.exists()\<close> does not turn into False: on a disk where nothing exists,
  the path \<^verbatim>\<open>/tmp/xxx...\<close> with a name of 300 bytes is refused with ENAMETOOLONG, and
  \<^verbatim>\<open>analyze_existing_data\<close> raises that OSError instead of returning the error dict.
\<close>

theorem analyze_missing_path_counterexample:
  "root_stat empty_disk (parse_path (''/tmp/'' @ replicate 300 (CHR ''x''))) = Some ENAMETOOLONG \<and>
   analyze_existing_data ascii_lower empty_disk (''/tmp/'' @ replicate 300 (CHR ''x'')) =
     Inl (OSError ENAMETOOLONG)"
proof -
  have "parts (parse_path (''/tmp/'' @ replicate 300 (CHR ''x''))) =
      [''tmp'', replicate 300 (CHR ''x'')]"
    by (simp only: parse_long_name Path.sel)
  then have stat: "root_stat empty_disk (parse_path (''/tmp/'' @ replicate 300 (CHR ''x''))) =
      Some ENAMETOOLONG"
    by (simp only: empty_disk_def disk.simps) simp
  have "\<not> ignore_error ENAMETOOLONG" by (simp add: ignore_error_def)
  from stat analyze_stat_raises [OF stat this] show ?thesis by (rule conjI)
qed

theorem analyze_missing_path_witness:
  "root_stat example_disk (parse_path ''/nowhere'') = Some ENOENT \<and>
   ENOENT \<in> {ENOENT, ENOTDIR, EBADF, ELOOP} \<and>
   analyze_existing_data ascii_lower example_disk ''/nowhere'' =
     Inr (ErrorDict ''Path /nowhere does not exist'') \<and>
   map_sum id keys (analyze_existing_data ascii_lower example_disk ''/nowhere'') =
     Inr [''error''] \<and>
   root_stat locked_disk (parse_path ''/d/locked/missing'') = Some EACCES \<and>
   EACCES \<notin> {ENOENT, ENOTDIR, EBADF, ELOOP} \<and>
   analyze_existing_data ascii_lower locked_disk ''/d/locked/missing'' = Inl (OSError EACCES)"
proof -
  have a: "root_stat example_disk (parse_path ''/nowhere'') = Some ENOENT"
    by (simp add: example_disk_def parse_path_def splitroot_def)
  have b: "root_stat locked_disk (parse_path ''/d/locked/missing'') = Some EACCES"
    by (simp add: locked_disk_def parse_path_def splitroot_def)
  have s: "str_of (parse_path ''/nowhere'') = ''/nowhere''"
    by (simp add: parse_path_def splitroot_def str_of_def)
  from analyze_missing_path [OF a, where str_lower = ascii_lower]
       analyze_missing_path [OF b, where str_lower = ascii_lower] a b s
  show ?thesis by simp
qed

text \<open>
  Claim C6 as stated fails from \<open>2 ^ 53\<close> bytes on, where the quotient is rounded to a
  double before \<^verbatim>\<open>round\<close> sees it: for a file of 9007199254872065 bytes the program records
  8589934592.12, while bytes / 1,048,576 rounded to two places is 8589934592.13.
\<close>

theorem large_files_rule_counterexample:
  "analyze_existing_data ascii_lower sparse_disk ''/d'' =
     Inr (AnalysisDict \<lparr>total_files = 1, file_types = [(''.img'', 1)],
       large_files = [\<lparr>path = ''/d/sparse.img'', size_mb = 858993459212 / 100\<rparr>],
       recommendations = [''Consider using 'hybrid_approach' for balanced organization'',
          ''Consider creating a separate 'Large_Files' folder for files >100MB'']\<rparr>) \<and>
   size_stat (hd (walk sparse_disk (parse_path ''/d''))) = Inr 9007199254872065 \<and>
   py_round2 (9007199254872065 / 1048576) = 858993459213 / 100"
proof -
  have "size_stat (hd (walk sparse_disk (parse_path ''/d''))) = Inr 9007199254872065"
    by (simp add: sparse_disk_def walk_def)
  with sparse_disk_analysis sparse_rounding show ?thesis by (intro conjI) simp_all
qed

theorem large_files_rule_witness:
  "exists_at example_disk (parse_path ''/d'') = Inr True \<and>
   \<not> isl (rglob example_disk (parse_path ''/d'')) \<and>
   list_all (\<lambda>e. \<not> isl (is_file e)) (walk example_disk (parse_path ''/d'')) \<and>
   (\<exists>r. analyze_existing_data ascii_lower example_disk ''/d'' = Inr (AnalysisDict r) \<and>
        large_files r = [\<lparr>path = ''/d/sub/b.pdf'', size_mb = 150\<rparr>] \<and>
        ''Consider creating a separate 'Large_Files' folder for files >100MB''
          \<in> set (recommendations r)) \<and>
   (157286400::nat) < 2 ^ 53 \<and> float_of_nat 157286400 = 157286400"
proof -
  have "(157286400::nat) < 2 ^ 53" by simp
  moreover from this large_files_rule [where d = example_disk and data_path = "''/d''"
      and str_lower = ascii_lower]
  have "float_of_nat 157286400 = of_nat 157286400" by blast
  ultimately show ?thesis
    using example_disk_exists example_disk_walk example_disk_analysis by simp
qed

theorem tally_invariant_witness:
  "exists_at example_disk (parse_path ''/d'') = Inr True \<and>
   \<not> isl (rglob example_disk (parse_path ''/d'')) \<and>
   list_all (\<lambda>e. \<not> isl (is_file e)) (walk example_disk (parse_path ''/d'')) \<and>
   (\<exists>r. analyze_existing_data ascii_lower example_disk ''/d'' = Inr (AnalysisDict r) \<and>
        sum_list (map snd (file_types r)) = 3 \<and> total_files r = 3)"
  using tally_invariant [where d = example_disk and data_path = "''/d''"
          and str_lower = ascii_lower]
    example_disk_exists example_disk_walk example_disk_analysis
  by simp

text \<open>
  Claim C9 as stated fails for the permission error that it names. A file in a directory
  that may be listed but not searched is part of the walk and its size cannot be read;
  but \<^verbatim>\<open>is_file()\<close>, which is called outside the \<^verbatim>\<open>try\<close>, fails on it first and raises the
  PermissionError (pathlib up to Python 3.13): the analysis ends with that error
  instead of going on to the remaining files.
\<close>

theorem unreadable_size_swallowed_counterexample:
  "size_stat (hd (tl (walk locked_disk (parse_path ''/d'')))) = Inl EACCES \<and>
   analyze_existing_data ascii_lower locked_disk ''/d'' = Inl (OSError EACCES)"
  using locked_disk_analysis by (simp add: locked_disk_def walk_def)

theorem unreadable_size_swallowed_witness:
  "exists_at example_disk (parse_path ''/d'') = Inr True \<and>
   \<not> isl (rglob example_disk (parse_path ''/d'')) \<and>
   list_all (\<lambda>e. \<not> isl (is_file e)) (walk example_disk (parse_path ''/d'')) \<and>
   size_stat (hd (walk example_disk (parse_path ''/d''))) = Inl ENOENT \<and>
   analyze_existing_data ascii_lower example_disk ''/d'' =
     analyze_existing_data ascii_lower
       (example_disk\<lparr>rglob := \<lambda>q. map_sum id
            (map (\<lambda>e. if isl (size_stat e) then e\<lparr>size_stat := Inr 0\<rparr> else e))
            (rglob example_disk q)\<rparr>) ''/d'' \<and>
   (\<exists>r. analyze_existing_data ascii_lower example_disk ''/d'' = Inr (AnalysisDict r) \<and>
        total_files r = 3 \<and>
        large_files r = [\<lparr>path = ''/d/sub/b.pdf'', size_mb = 150\<rparr>])"
proof -
  have n: "size_stat (hd (walk example_disk (parse_path ''/d''))) = Inl ENOENT"
    by (simp add: example_disk_def walk_def)
  from unreadable_size_swallowed [where d = example_disk and data_path = "''/d''"
      and str_lower = ascii_lower]
  have same: "analyze_existing_data ascii_lower example_disk ''/d'' =
     analyze_existing_data ascii_lower
       (example_disk\<lparr>rglob := \<lambda>q. map_sum id
            (map (\<lambda>e. if isl (size_stat e) then e\<lparr>size_stat := Inr 0\<rparr> else e))
            (rglob example_disk q)\<rparr>) ''/d''"
    by (rule conjunct1)
  have "\<exists>r. analyze_existing_data ascii_lower example_disk ''/d'' = Inr (AnalysisDict r) \<and>
        total_files r = 3 \<and>
        large_files r = [\<lparr>path = ''/d/sub/b.pdf'', size_mb = 150\<rparr>]"
    by (simp add: example_disk_analysis)
  with example_disk_exists example_disk_walk n same show ?thesis by blast
qed

text \<open>
  Claim C8 as stated fails on a dot file: the name \<^verbatim>\<open>.bashrc\<close> contains a \<^verbatim>\<open>'.'\<close>, so the
  claim's extension is \<^verbatim>\<open>.bashrc\<close>, but the file is counted under the empty string (with
  \<^verbatim>\<open>Makefile\<close>), and the key \<^verbatim>\<open>.bashrc\<close> is absent.
\<close>

theorem extension_tally_counterexample:
  "analyze_existing_data ascii_lower dotfile_disk ''/home'' =
     Inr (AnalysisDict \<lparr>total_files = 3, file_types = [([], 2), (''.txt'', 1)],
       large_files = [],
       recommendations =
         [''Consider using 'by_project' approach - you have many document files'']\<rparr>) \<and>
   spec_extension ascii_lower ''.bashrc'' = ''.bashrc'' \<and>
   ascii_lower (suffix (Path ''/'' [''home'', ''.bashrc''])) = []"
proof -
  have "spec_extension ascii_lower ''.bashrc'' = ''.bashrc''"
    by (simp add: spec_extension_def ascii_lower_def lower_char_def)
  moreover have "ascii_lower (suffix (Path ''/'' [''home'', ''.bashrc''])) = []"
    by (simp add: suffix_def name_def ascii_lower_def)
  ultimately show ?thesis using dotfile_disk_analysis by simp
qed

theorem extension_tally_witness:
  "ascii_lower [] = [] \<and>
   exists_at dotfile_disk (parse_path ''/home'') = Inr True \<and>
   \<not> isl (rglob dotfile_disk (parse_path ''/home'')) \<and>
   list_all (\<lambda>e. \<not> isl (is_file e)) (walk dotfile_disk (parse_path ''/home'')) \<and>
   (\<exists>r. analyze_existing_data ascii_lower dotfile_disk ''/home'' = Inr (AnalysisDict r) \<and>
        dict_get (file_types r) [] 0 = 2 \<and> dict_get (file_types r) ''.txt'' 0 = 1) \<and>
   CHR ''.'' \<notin> set (name (Path ''/'' [''home'', ''Makefile''])) \<and>
   ascii_lower (suffix (Path ''/'' [''home'', ''Makefile''])) = [] \<and>
   name (Path ''/'' [''home'', ''.bashrc'']) = CHR ''.'' # ''bashrc'' \<and>
   CHR ''.'' \<notin> set ''bashrc'' \<and>
   ascii_lower (suffix (Path ''/'' [''home'', ''.bashrc''])) = [] \<and>
   hd (name (Path ''/'' [''home'', ''Notes.TXT''])) \<noteq> CHR ''.'' \<and>
   last (name (Path ''/'' [''home'', ''Notes.TXT''])) \<noteq> CHR ''.'' \<and>
   CHR ''.'' \<in> set (name (Path ''/'' [''home'', ''Notes.TXT''])) \<and>
   ascii_lower (suffix (Path ''/'' [''home'', ''Notes.TXT''])) =
     spec_extension ascii_lower (name (Path ''/'' [''home'', ''Notes.TXT'']))"
proof -
  have l: "ascii_lower [] = []" by (simp add: ascii_lower_def)
  have a: "CHR ''.'' \<notin> set (name (Path ''/'' [''home'', ''Makefile'']))"
    by (simp add: name_def)
  have b: "name (Path ''/'' [''home'', ''.bashrc'']) = CHR ''.'' # ''bashrc'' \<and>
      CHR ''.'' \<notin> set ''bashrc''"
    by (simp add: name_def)
  have c: "name (Path ''/'' [''home'', ''Notes.TXT'']) \<noteq> [] \<and>
      hd (name (Path ''/'' [''home'', ''Notes.TXT''])) \<noteq> CHR ''.'' \<and>
      last (name (Path ''/'' [''home'', ''Notes.TXT''])) \<noteq> CHR ''.'' \<and>
      CHR ''.'' \<in> set (name (Path ''/'' [''home'', ''Notes.TXT'']))"
    by (simp add: name_def)
  from extension_tally [where str_lower = ascii_lower and d = dotfile_disk
      and data_path = "''/home''", OF l]
  have ext: "\<forall>p. (CHR ''.'' \<notin> set (name p) \<longrightarrow> ascii_lower (suffix p) = []) \<and>
        (\<forall>m. name p = CHR ''.'' # m \<and> CHR ''.'' \<notin> set m \<longrightarrow> ascii_lower (suffix p) = []) \<and>
        (name p \<noteq> [] \<and> hd (name p) \<noteq> CHR ''.'' \<and> last (name p) \<noteq> CHR ''.'' \<and>
         CHR ''.'' \<in> set (name p) \<longrightarrow>
           ascii_lower (suffix p) = spec_extension ascii_lower (name p))"
    by blast
  from ext a have a': "ascii_lower (suffix (Path ''/'' [''home'', ''Makefile''])) = []" by blast
  from ext b have b': "ascii_lower (suffix (Path ''/'' [''home'', ''.bashrc''])) = []" by blast
  from ext c have c': "ascii_lower (suffix (Path ''/'' [''home'', ''Notes.TXT''])) =
     spec_extension ascii_lower (name (Path ''/'' [''home'', ''Notes.TXT'']))" by blast
  have "\<exists>r. analyze_existing_data ascii_lower dotfile_disk ''/home'' = Inr (AnalysisDict r) \<and>
        dict_get (file_types r) [] 0 = 2 \<and> dict_get (file_types r) ''.txt'' 0 = 1"
    by (simp add: dotfile_disk_analysis)
  with l dotfile_disk_exists dotfile_disk_walk a a' b b' c c' show ?thesis by blast
qed

end
